theory Spec2Isabelle
  imports Complex_Main "HOL-Library.Log_Nat"
begin

section \<open>Notebook 4: long-term runoff and sample energy calculations\<close>

text \<open>
  The notebook computes with IEEE double precision numbers. A finite value is modelled
  by the real number it denotes; the special values that numpy produces instead of
  raising (\<open>inf\<close>, \<open>-inf\<close>, \<open>nan\<close>) are modelled explicitly where the code can produce
  them, and the two zeros are not distinguished: \<open>Fin 0\<close> stands for \<open>+0.0\<close>.

  The power formula and the area under the flow-duration curve accumulate rounding
  errors that decide a bound, so there every arithmetic operation is followed by the
  rounding \<open>f64\<close> to the nearest double, and every decimal literal that is not a double
  is rounded as the parser does. Elsewhere the arithmetic is exact.
\<close>

subsection \<open>Rounding to float64\<close>

text \<open>
  \<open>np_rint\<close> rounds to the nearest integer, ties to the even one.
\<close>

definition np_rint :: "real \<Rightarrow> real" where
  "np_rint x =
     (let f = \<lfloor>x\<rfloor>; d = x - of_int f
      in if d < 1 / 2 then of_int f
         else if 1 / 2 < d then of_int (f + 1)
         else if even f then of_int f
         else of_int (f + 1))"

text \<open>
  The binary exponent of a positive number: the \<open>e\<close> with \<open>2^e \<le> x < 2^(e + 1)\<close>,
  read off the bit length of the integer part of \<open>x\<close> or of \<open>1 / x\<close>.
\<close>

definition f64_exponent :: "real \<Rightarrow> int" where
  "f64_exponent x = (if 1 \<le> x then bitlen \<lfloor>x\<rfloor> - 1 else - bitlen (\<lceil>1 / x\<rceil> - 1))"

text \<open>
  Round to nearest, ties to even, with a significand of 53 bits: the spacing of the
  doubles around \<open>x\<close> is \<open>2^(e - 52)\<close>. The exponent is not bounded, so the model is
  that of float64 on its normal range: overflow to \<open>inf\<close> (above about \<open>1.8e308\<close>) and
  the subnormal numbers (below about \<open>2.2e-308\<close>) are outside it.
\<close>

definition f64 :: "real \<Rightarrow> real" where
  "f64 x =
     (if x = 0 then 0
      else let e = f64_exponent \<bar>x\<bar>;
               ulp = 2 powi (e - 52)
           in sgn x * (np_rint (\<bar>x\<bar> / ulp) * ulp))"

text \<open>The unit roundoff, half the distance from \<open>1\<close> to the next double.\<close>

definition f64_u :: real where
  "f64_u = 1 / 2 ^ 53"

text \<open>
  Python's \<^verbatim>\<open>sum\<close> over numpy floats: it starts from the integer \<open>0\<close> and adds the
  elements from left to right, each addition rounded.
\<close>

definition py_sum :: "real list \<Rightarrow> real" where
  "py_sum xs = foldl (\<lambda>s x. f64 (s + x)) 0 xs"

subsection \<open>Power and turbinable flow\<close>

text \<open>
  \<^verbatim>\<open>
  def calc_power(q_in):
      return q_in * 100.4 * 0.76 * 9.81
  \<close>
\<close>

definition calc_power :: "real \<Rightarrow> real" where
  "calc_power q_in = f64 (f64 (f64 (q_in * f64 100.4) * f64 0.76) * f64 9.81)"

text \<open>
  \<^verbatim>\<open>
  def calc_flow_exceedance(q, qd, ifr):
      if q < ifr:
          return 0
      elif q < ifr + qd: # threshold must include ifr
          return q
      else:
          return qd
  \<close>
\<close>

definition calc_flow_exceedance :: "real \<Rightarrow> real \<Rightarrow> real \<Rightarrow> real" where
  "calc_flow_exceedance q qd ifr =
     (if q < ifr then 0
      else if q < ifr + qd then q
      else qd)"

text \<open>
  \<^verbatim>\<open>
  def calc_energy_daily(q_in):
      return calc_power(q_in) * 24
  \<close>
\<close>

definition calc_energy_daily :: "real \<Rightarrow> real" where
  "calc_energy_daily q_in = f64 (calc_power q_in * 24)"

text \<open>
  \<^verbatim>\<open>
  def calc_daily_flow(q_in, q_design, ifr):
      if q_in < ifr:
          return 0
      elif q_in < ifr + q_design:
          return q_in
      else:
          return q_design
  \<close>
\<close>

definition calc_daily_flow :: "real \<Rightarrow> real \<Rightarrow> real \<Rightarrow> real" where
  "calc_daily_flow q_in q_design ifr =
     (if q_in < ifr then 0
      else if q_in < ifr + q_design then q_in
      else q_design)"

subsection \<open>Floating-point values and Python results\<close>

text \<open>
  A float64 value: a finite number, one of the two infinities, or not-a-number.
\<close>

datatype npfloat = Fin real | PInf | NInf | NaN

text \<open>
  What a Python function of the notebook can return: the integer literal of
  \<^verbatim>\<open>return 0\<close>, a float, or \<^verbatim>\<open>None\<close>.
\<close>

datatype pyval = PyInt int | PyFloat npfloat | PyNone

datatype py_exn = ValueError | IndexError | KeyError

text \<open>
  IEEE subtraction, addition, multiplication and division as numpy's float64 carries
  them out: an invalid operation gives \<open>nan\<close>, a division of a non-zero number by zero
  gives an infinity, and no exception is raised (numpy reports both as a RuntimeWarning).
\<close>

fun np_sub :: "npfloat \<Rightarrow> npfloat \<Rightarrow> npfloat" where
  "np_sub (Fin a) (Fin b) = Fin (a - b)"
| "np_sub (Fin a) PInf = NInf"
| "np_sub (Fin a) NInf = PInf"
| "np_sub PInf (Fin b) = PInf"
| "np_sub PInf NInf = PInf"
| "np_sub PInf PInf = NaN"
| "np_sub NInf (Fin b) = NInf"
| "np_sub NInf PInf = NInf"
| "np_sub NInf NInf = NaN"
| "np_sub NaN y = NaN"
| "np_sub x NaN = NaN"

fun np_add :: "npfloat \<Rightarrow> npfloat \<Rightarrow> npfloat" where
  "np_add (Fin a) (Fin b) = Fin (a + b)"
| "np_add (Fin a) PInf = PInf"
| "np_add (Fin a) NInf = NInf"
| "np_add PInf (Fin b) = PInf"
| "np_add PInf PInf = PInf"
| "np_add PInf NInf = NaN"
| "np_add NInf (Fin b) = NInf"
| "np_add NInf NInf = NInf"
| "np_add NInf PInf = NaN"
| "np_add NaN y = NaN"
| "np_add x NaN = NaN"

fun np_mul :: "npfloat \<Rightarrow> npfloat \<Rightarrow> npfloat" where
  "np_mul (Fin a) (Fin b) = Fin (a * b)"
| "np_mul (Fin a) PInf = (if a = 0 then NaN else if 0 < a then PInf else NInf)"
| "np_mul (Fin a) NInf = (if a = 0 then NaN else if 0 < a then NInf else PInf)"
| "np_mul PInf (Fin b) = (if b = 0 then NaN else if 0 < b then PInf else NInf)"
| "np_mul NInf (Fin b) = (if b = 0 then NaN else if 0 < b then NInf else PInf)"
| "np_mul PInf PInf = PInf"
| "np_mul PInf NInf = NInf"
| "np_mul NInf PInf = NInf"
| "np_mul NInf NInf = PInf"
| "np_mul NaN y = NaN"
| "np_mul x NaN = NaN"

fun np_div :: "npfloat \<Rightarrow> npfloat \<Rightarrow> npfloat" where
  "np_div (Fin a) (Fin b) =
     (if b = 0 then (if a = 0 then NaN else if 0 < a then PInf else NInf)
      else Fin (a / b))"
| "np_div (Fin a) PInf = Fin 0"
| "np_div (Fin a) NInf = Fin 0"
| "np_div PInf (Fin b) = (if b < 0 then NInf else PInf)"
| "np_div NInf (Fin b) = (if b < 0 then PInf else NInf)"
| "np_div PInf PInf = NaN"
| "np_div PInf NInf = NaN"
| "np_div NInf PInf = NaN"
| "np_div NInf NInf = NaN"
| "np_div NaN y = NaN"
| "np_div x NaN = NaN"

text \<open>
  \<^verbatim>\<open>np.log\<close> and \<^verbatim>\<open>np.exp\<close> on a float: the logarithm of zero is \<open>-inf\<close> and the
  logarithm of a negative number is \<open>nan\<close>; numpy warns and returns, it raises no
  \<^verbatim>\<open>ValueError\<close> (that is what \<^verbatim>\<open>math.log\<close> would do).
\<close>

fun np_log :: "npfloat \<Rightarrow> npfloat" where
  "np_log (Fin x) = (if 0 < x then Fin (ln x) else if x = 0 then NInf else NaN)"
| "np_log PInf = PInf"
| "np_log NInf = NaN"
| "np_log NaN = NaN"

fun np_exp :: "npfloat \<Rightarrow> npfloat" where
  "np_exp (Fin x) = Fin (exp x)"
| "np_exp PInf = PInf"
| "np_exp NInf = Fin 0"
| "np_exp NaN = NaN"

subsection \<open>Rating curve: discharge from stage\<close>

text \<open>
  \<^verbatim>\<open>
  def ols_rc_q(slope, intercept, h, h0):
      if slope == 0:
          return 0
      try:
          return np.exp((np.log(h - h0) - intercept) / slope)
      except ValueError:
          return None
  \<close>
  The body of the \<^verbatim>\<open>try\<close> is a computation that may raise; the handler turns a
  \<^verbatim>\<open>ValueError\<close> into \<^verbatim>\<open>None\<close> and lets any other exception pass.
\<close>

definition ols_rc_q_try :: "npfloat \<Rightarrow> npfloat \<Rightarrow> npfloat \<Rightarrow> npfloat \<Rightarrow> py_exn + npfloat" where
  "ols_rc_q_try slope intercept h h0 =
     Inr (np_exp (np_div (np_sub (np_log (np_sub h h0)) intercept) slope))"

definition ols_rc_q :: "npfloat \<Rightarrow> npfloat \<Rightarrow> npfloat \<Rightarrow> npfloat \<Rightarrow> py_exn + pyval" where
  "ols_rc_q slope intercept h h0 =
     (if slope = Fin 0 then Inr (PyInt 0)
      else case ols_rc_q_try slope intercept h h0 of
             Inr q \<Rightarrow> Inr (PyFloat q)
           | Inl ValueError \<Rightarrow> Inr PyNone
           | Inl e \<Rightarrow> Inl e)"


subsection \<open>Annual energy from the area under the flow-duration curve\<close>

text \<open>
  \<^verbatim>\<open>np.linspace(start, stop, num)\<close>: \<open>num\<close> evenly spaced values from \<open>start\<close> to
  \<open>stop\<close>, both included.
\<close>

definition np_linspace :: "real \<Rightarrow> real \<Rightarrow> nat \<Rightarrow> real list" where
  "np_linspace start stop num =
     map (\<lambda>i. start + real i * ((stop - start) / real (num - 1))) [0..<num]"

text \<open>
  \<^verbatim>\<open>np.percentile(a, p)\<close> with the default linear interpolation: the value at the
  fractional position \<open>p / 100 * (n - 1)\<close> of the sorted data. A percentile outside
  \<open>[0, 100]\<close> raises \<^verbatim>\<open>ValueError\<close>; an empty array has no element to take (numpy raises
  \<^verbatim>\<open>IndexError\<close> there).
\<close>

definition np_percentile :: "real list \<Rightarrow> real \<Rightarrow> py_exn + real" where
  "np_percentile a p =
     (if p < 0 \<or> 100 < p then Inl ValueError
      else if a = [] then Inl IndexError
      else let s = sort a;
               n = length s;
               vi = p / 100 * real (n - 1);
               lo = nat \<lfloor>vi\<rfloor>;
               hi = min (lo + 1) (n - 1);
               g = vi - real lo
           in Inr (s ! lo + g * (s ! hi - s ! lo)))"

text \<open>A list comprehension over a call that may raise: the first exception ends it.\<close>

fun py_map :: "('a \<Rightarrow> py_exn + 'b) \<Rightarrow> 'a list \<Rightarrow> py_exn + 'b list" where
  "py_map f [] = Inr []"
| "py_map f (x # xs) =
     (case f x of
        Inl e \<Rightarrow> Inl e
      | Inr y \<Rightarrow> (case py_map f xs of Inl e \<Rightarrow> Inl e | Inr ys \<Rightarrow> Inr (y # ys)))"

text \<open>\<^verbatim>\<open>np.clip(x, a_min, a_max)\<close> is \<^verbatim>\<open>minimum(maximum(x, a_min), a_max)\<close>.\<close>

definition np_clip :: "real \<Rightarrow> real \<Rightarrow> real \<Rightarrow> real" where
  "np_clip x a_min a_max = min (max x a_min) a_max"

text \<open>
  \<^verbatim>\<open>
  def calc_area_under_fdc(data, qd, ifr):
      # calculate avg flow based on area under the FDC
      start, end = 0, 100
      n_steps = 100
      percentiles = np.linspace(start, end, n_steps)
      # calculate FDC for long term
      q_vals = [np.percentile(data, p) for p in percentiles]
      # step size
      d_step = (end - start) / n_steps
      # set limit at design flow and filter out flows < ifr
      fdc_flow_filtered = [q for q in np.clip(q_vals, a_min=0, a_max=qd) if q > 0.9]
      fdc_effective_flow = sum([q * d_step for q in fdc_flow_filtered]) / n_steps
      fdc_energy = calc_power(fdc_effective_flow) * (8760 * (n_steps/100)) / 1E6
      fdc_flow_estimate = sum(q_vals) / n_steps
      return fdc_flow_estimate, fdc_energy
  \<close>
  The local \<^verbatim>\<open>fdc_flow_filtered\<close> is a definition of its own, with the three values that
  are in scope where the source computes it. The quantiles themselves are taken as the
  exact interpolated values; from there on every operation is rounded.
\<close>

definition fdc_flow_filtered :: "real list \<Rightarrow> real \<Rightarrow> real \<Rightarrow> real list" where
  "fdc_flow_filtered q_vals qd ifr =
     filter (\<lambda>q. q > f64 0.9) (map (\<lambda>q. np_clip q 0 qd) q_vals)"

definition calc_area_under_fdc :: "real list \<Rightarrow> real \<Rightarrow> real \<Rightarrow> py_exn + (real \<times> real)" where
  "calc_area_under_fdc data qd ifr =
     (let start = 0; stop = 100; n_steps = (100::nat);
          percentiles = np_linspace start stop n_steps
      in case py_map (np_percentile data) percentiles of
           Inl e \<Rightarrow> Inl e
         | Inr q_vals \<Rightarrow>
             let d_step = f64 ((stop - start) / real n_steps);
                 filtered = fdc_flow_filtered q_vals qd ifr;
                 fdc_effective_flow =
                   f64 (py_sum (map (\<lambda>q. f64 (q * d_step)) filtered) / real n_steps);
                 fdc_energy =
                   f64 (f64 (calc_power fdc_effective_flow * f64 (8760 * f64 (real n_steps / 100)))
                        / 1000000);
                 fdc_flow_estimate = f64 (py_sum q_vals / real n_steps)
             in Inr (fdc_flow_estimate, fdc_energy))"

subsection \<open>Regional correlation and the long-term series\<close>

text \<open>
  \<^verbatim>\<open>scipy.stats.linregress(x, y)\<close>, of which the notebook keeps the slope and the
  intercept: the least-squares line through the points, \<open>slope = ssxym / ssxm\<close> and
  \<open>intercept = ymean - slope * xmean\<close>, with \<open>ssxm\<close> the mean squared deviation of \<open>x\<close>
  and \<open>ssxym\<close> the mean product of the deviations. Empty inputs, inputs of different
  lengths and inputs whose \<open>x\<close> values are all identical raise \<^verbatim>\<open>ValueError\<close>; an
  infinite or \<open>nan\<close> entry makes both results \<open>nan\<close>.
\<close>

definition mean :: "real list \<Rightarrow> real" where
  "mean xs = sum_list xs / real (length xs)"

fun the_fin :: "npfloat \<Rightarrow> real option" where
  "the_fin (Fin x) = Some x"
| "the_fin x = None"

fun finite_values :: "npfloat list \<Rightarrow> real list option" where
  "finite_values [] = Some []"
| "finite_values (v # vs) =
     (case the_fin v of
        None \<Rightarrow> None
      | Some x \<Rightarrow> (case finite_values vs of None \<Rightarrow> None | Some xs \<Rightarrow> Some (x # xs)))"

definition linregress :: "npfloat list \<Rightarrow> npfloat list \<Rightarrow> py_exn + (npfloat \<times> npfloat)" where
  "linregress x y =
     (if x = [] \<or> y = [] then Inl ValueError
      else if length x \<noteq> length y then Inl ValueError
      else if 1 < length x \<and> NaN \<notin> set x \<and> list_all (\<lambda>v. v = hd x) x then Inl ValueError
      else case (finite_values x, finite_values y) of
             (Some xs, Some ys) \<Rightarrow>
               let xmean = mean xs;
                   ymean = mean ys;
                   ssxm = mean (map (\<lambda>a. (a - xmean) * (a - xmean)) xs);
                   ssxym = mean (map (\<lambda>(a, b). (a - xmean) * (b - ymean)) (zip xs ys));
                   slope = np_div (Fin ssxym) (Fin ssxm);
                   intercept = np_sub (Fin ymean) (np_mul slope (Fin xmean))
               in Inr (slope, intercept)
           | _ \<Rightarrow> Inr (NaN, NaN))"

text \<open>
  The notebook keeps the regression in the two global variables \<^verbatim>\<open>slope\<close> and
  \<^verbatim>\<open>intercept\<close>; its cells run in order and each one reads and writes them.
\<close>

record nb_state =
  nb_slope :: npfloat
  nb_intercept :: npfloat

text \<open>
  \<^verbatim>\<open>
  concurrent_df.dropna(inplace=True)
  # find the best fit equation
  slope, intercept, rval, pval, stderr = st.linregress(concurrent_df['Regional_Q'],
                                                       concurrent_df['Project_Q'])
  \<close>
  A row of \<^verbatim>\<open>concurrent_df\<close> is the pair (Regional_Q, Project_Q).
\<close>

definition dropna :: "(npfloat \<times> npfloat) list \<Rightarrow> (npfloat \<times> npfloat) list" where
  "dropna df = filter (\<lambda>(a, b). a \<noteq> NaN \<and> b \<noteq> NaN) df"

definition cell_best_fit :: "(npfloat \<times> npfloat) list \<Rightarrow> py_exn + nb_state" where
  "cell_best_fit concurrent_df =
     (let df = dropna concurrent_df
      in case linregress (map fst df) (map snd df) of
           Inl e \<Rightarrow> Inl e
         | Inr (s, i) \<Rightarrow> Inr \<lparr>nb_slope = s, nb_intercept = i\<rparr>)"

text \<open>
  \<^verbatim>\<open>
  #plot the best fit
  q_range = np.linspace(0, concurrent_df['Regional_Q'].max(), 500)
  intercept = 0.2
  slope = 0.15
  reg_line = [slope * q + intercept for q in q_range]
  \<close>
  The cell of the regression plot assigns both variables; the line it draws is output
  only.
\<close>

definition cell_regression_plot :: "nb_state \<Rightarrow> nb_state" where
  "cell_regression_plot st = st\<lparr>nb_intercept := Fin 0.2, nb_slope := Fin 0.15\<rparr>"

text \<open>
  \<^verbatim>\<open>
  lt_series = regional_df.copy()[['flow']]
  lt_series.columns = ['Regional_Q']
  # map the equation of the best fit line to the regional flow series
  lt_series['Proj_Q'] = lt_series.apply(lambda q: slope * q + intercept, axis=1)
  \<close>
\<close>

definition cell_lt_series :: "npfloat list \<Rightarrow> nb_state \<Rightarrow> npfloat list" where
  "cell_lt_series regional_q st =
     map (\<lambda>q. np_add (np_mul (nb_slope st) q) (nb_intercept st)) regional_q"

text \<open>The three cells in the order of the notebook; an exception in the fit ends the run.\<close>

definition lt_series_Proj_Q :: "(npfloat \<times> npfloat) list \<Rightarrow> npfloat list \<Rightarrow> py_exn + npfloat list" where
  "lt_series_Proj_Q concurrent_df regional_q =
     (case cell_best_fit concurrent_df of
        Inl e \<Rightarrow> Inl e
      | Inr st \<Rightarrow> Inr (cell_lt_series regional_q (cell_regression_plot st)))"

text \<open>
  For comparison, the synthesis as the specification words it: the fitted slope and
  intercept applied to every value of the regional record.
\<close>

definition spec_lt_series_Proj_Q :: "(npfloat \<times> npfloat) list \<Rightarrow> npfloat list \<Rightarrow> py_exn + npfloat list" where
  "spec_lt_series_Proj_Q concurrent_df regional_q =
     (case cell_best_fit concurrent_df of
        Inl e \<Rightarrow> Inl e
      | Inr st \<Rightarrow> Inr (cell_lt_series regional_q st))"


subsection \<open>Economics of the candidate design flows\<close>

text \<open>
  \<^verbatim>\<open>round(x, n)\<close> on a float64 goes through \<^verbatim>\<open>np.round\<close>: scale by \<open>10^n\<close>, round half to
  even, scale back; infinities and \<open>nan\<close> are returned as they are.
\<close>

fun np_round :: "npfloat \<Rightarrow> nat \<Rightarrow> npfloat" where
  "np_round (Fin x) n = Fin (np_rint (x * 10 ^ n) / 10 ^ n)"
| "np_round PInf n = PInf"
| "np_round NInf n = NInf"
| "np_round NaN n = NaN"

text \<open>
  \<^verbatim>\<open>
  # minimum IFR
  ifr = 0.9
  # unit cost of design capacity
  # $M / m^3/s
  unit_cap_cost = 1
  \<close>
\<close>

definition ifr_min :: real where
  "ifr_min = 0.9"

definition unit_cap_cost :: real where
  "unit_cap_cost = 1"

text \<open>
  A row of \<^verbatim>\<open>lt_series\<close> is the pair (year, Proj_Q), missing values already dropped.
  \<^verbatim>\<open>
  # drop incomplete years
  lt_series = lt_series[~lt_series['year'].isin([2001, 1983, 1984])]
  lt_mean = lt_series['Proj_Q'].mean()
  lt_median = np.percentile(lt_series['Proj_Q'], 50)
  # create array of median, MAD, 1.2MAD, 1.5MAD
  qs = [lt_median, lt_mean, 1.2 * lt_mean, 1.5 * lt_mean]
  \<close>
\<close>

definition drop_incomplete_years :: "(int \<times> real) list \<Rightarrow> (int \<times> real) list" where
  "drop_incomplete_years lt = filter (\<lambda>(y, q). y \<noteq> 2001 \<and> y \<noteq> 1983 \<and> y \<noteq> 1984) lt"

definition design_flows :: "real list \<Rightarrow> py_exn + real list" where
  "design_flows proj_q =
     (let lt_mean = mean proj_q
      in case np_percentile proj_q 50 of
           Inl e \<Rightarrow> Inl e
         | Inr lt_median \<Rightarrow> Inr [lt_median, lt_mean, 1.2 * lt_mean, 1.5 * lt_mean])"

text \<open>
  The energy columns are stored under a label made from the design flow rounded to one
  decimal, \<^verbatim>\<open>str(round(qd, 1))\<close>; a later design flow with the same label replaces the
  column of an earlier one.
  \<^verbatim>\<open>
  for qd in qs:
      label = str(round(qd, 1))
      # calculate turbinable flow
      lt_series['q_turbine_{}'.format(label)] = [calc_daily_flow(q, qd, 0.9) for q in lt_series['Proj_Q']]
      # calculate daily energy based on turbinable flow
      lt_series['energy_{}cms'.format(label)] = [calc_energy_daily(q) for q in lt_series['q_turbine_{}'.format(label)]]
  \<close>
\<close>

definition series_label :: "real \<Rightarrow> real" where
  "series_label qd = np_rint (qd * 10) / 10"

definition energy_columns :: "real list \<Rightarrow> real list \<Rightarrow> (real \<rightharpoonup> real list)" where
  "energy_columns qs proj_q =
     foldl (\<lambda>cols qd.
              let q_turbine = map (\<lambda>q. calc_daily_flow q qd 0.9) proj_q
              in cols(series_label qd \<mapsto> map calc_energy_daily q_turbine))
           Map.empty qs"

text \<open>
  One pass of the loop over the design flows:
  \<^verbatim>\<open>
      power = calc_power(qd)
      mw = power / 1000
      cost = unit_cap_cost * qd
      fdc_flow, fdc_annual_energy = calc_area_under_fdc(lt_series['Proj_Q'], qd, ifr)
      fdc_annual_rev = fdc_annual_energy * 0.04
      fdc_total_energy = fdc_annual_energy * 20 / 1E6
      n_years = len(set(lt_series['year']))
      series_label = str(round(qd, 1))
      ann_energy = lt_series['energy_{}cms'.format(series_label)].sum() / n_years / 1E6
      ann_rev = ann_energy * 0.04
      # rate of return
      payback = round(cost / ann_rev, 1)
      roi = round(1/payback, 2)
  \<close>
  The sum of a column is a float64, so the divisions that follow are numpy's.
\<close>

record scenario =
  sc_mw :: real
  sc_cost :: real
  sc_fdc_flow :: real
  sc_fdc_annual_energy :: real
  sc_fdc_annual_rev :: real
  sc_fdc_total_energy :: real
  sc_ann_energy :: npfloat
  sc_ann_rev :: npfloat
  sc_payback :: npfloat
  sc_roi :: npfloat

definition economics_scenario ::
  "(int \<times> real) list \<Rightarrow> (real \<rightharpoonup> real list) \<Rightarrow> real \<Rightarrow> py_exn + scenario" where
  "economics_scenario lt cols qd =
     (let power = calc_power qd;
          mw = power / 1000;
          cost = unit_cap_cost * qd
      in case calc_area_under_fdc (map snd lt) qd ifr_min of
           Inl e \<Rightarrow> Inl e
         | Inr (fdc_flow, fdc_annual_energy) \<Rightarrow>
             let fdc_annual_rev = fdc_annual_energy * 0.04;
                 fdc_total_energy = fdc_annual_energy * 20 / 1000000;
                 n_years = length (remdups (map fst lt))
             in (case cols (series_label qd) of
                  None \<Rightarrow> Inl KeyError
                | Some energy \<Rightarrow>
                    let ann_energy =
                          np_div (np_div (Fin (sum_list energy)) (Fin (real n_years))) (Fin 1000000);
                        ann_rev = np_mul ann_energy (Fin 0.04);
                        payback = np_round (np_div (Fin cost) ann_rev) 1;
                        roi = np_round (np_div (Fin 1) payback) 2
                    in Inr \<lparr>sc_mw = mw, sc_cost = cost, sc_fdc_flow = fdc_flow,
                            sc_fdc_annual_energy = fdc_annual_energy,
                            sc_fdc_annual_rev = fdc_annual_rev,
                            sc_fdc_total_energy = fdc_total_energy,
                            sc_ann_energy = ann_energy, sc_ann_rev = ann_rev,
                            sc_payback = payback, sc_roi = roi\<rparr>))"

text \<open>The cells of the sample energy calculation, from the long-term series to the report.\<close>

definition sample_energy_calcs :: "(int \<times> real) list \<Rightarrow> py_exn + scenario list" where
  "sample_energy_calcs lt_series =
     (let lt = drop_incomplete_years lt_series;
          proj_q = map snd lt
      in case design_flows proj_q of
           Inl e \<Rightarrow> Inl e
         | Inr qs \<Rightarrow> py_map (economics_scenario lt (energy_columns qs proj_q)) qs)"



section \<open>Properties of the float64 rounding\<close>

lemma np_rint_of_int: "np_rint (of_int k) = of_int k"
  by (simp add: np_rint_def)

lemma np_rint_error: "\<bar>np_rint y - y\<bar> \<le> 1 / 2"
proof -
  have "of_int \<lfloor>y\<rfloor> \<le> y" "y < of_int \<lfloor>y\<rfloor> + 1" by linarith+
  then show ?thesis by (auto simp add: np_rint_def Let_def)
qed

lemma np_rint_nonneg: "0 \<le> y \<Longrightarrow> 0 \<le> np_rint y"
proof -
  assume "0 \<le> y"
  then have "0 \<le> \<lfloor>y\<rfloor>" by simp
  then show ?thesis by (auto simp add: np_rint_def Let_def)
qed

lemma f64_exponent_bounds:
  assumes "0 < x"
  shows "2 powi (f64_exponent x) \<le> x" and "x < 2 powi (f64_exponent x + 1)"
proof -
  have "2 powi (f64_exponent x) \<le> x \<and> x < 2 powi (f64_exponent x + 1)"
  proof (cases "1 \<le> x")
    case True
    define n where "n = \<lfloor>x\<rfloor>"
    define b where "b = bitlen n"
    have n1: "0 < n" using True by (simp add: n_def)
    have n2: "of_int n \<le> x" unfolding n_def by linarith
    have n3: "x < of_int n + 1" unfolding n_def by linarith
    note n = n1 n2 n3
    from bitlen_bounds [OF n(1)] have bb: "2 ^ nat (b - 1) \<le> n" "n < 2 ^ nat b"
      by (simp_all add: b_def)
    have b1: "1 \<le> b"
      using n(1) by (simp add: b_def bitlen_alt_def)
    have e: "f64_exponent x = b - 1"
      using True by (simp add: f64_exponent_def n_def b_def)
    have lo: "(2::real) ^ nat (b - 1) \<le> of_int n"
      using bb(1) by (simp add: numeral_power_le_of_int_cancel_iff)
    have "n + 1 \<le> 2 ^ nat b" using bb(2) by simp
    then have hi: "of_int n + 1 \<le> (2::real) ^ nat b"
      using of_int_le_iff [of "n + 1" "2 ^ nat b", where ?'a = real] by simp
    have p1: "(2::real) powi (b - 1) = 2 ^ nat (b - 1)"
      using b1 by (simp add: power_int_def)
    have p2: "(2::real) powi b = 2 ^ nat b"
      using b1 by (simp add: power_int_def)
    have r1: "2 powi (f64_exponent x) \<le> x"
      unfolding e p1 using lo n2 by linarith
    have "x < 2 ^ nat b" using hi n3 by linarith
    then have r2: "x < 2 powi (f64_exponent x + 1)"
      by (simp add: e p2)
    show ?thesis using r1 r2 by blast
  next
    case False
    define y where "y = 1 / x"
    define m where "m = \<lceil>y\<rceil> - 1"
    define b where "b = bitlen m"
    have y1: "1 < y" using False assms by (simp add: y_def)
    then have "2 \<le> \<lceil>y\<rceil>" by linarith
    then have m: "0 < m" by (simp add: m_def)
    have ym1: "of_int m < y" unfolding m_def by linarith
    have ym2: "y \<le> of_int m + 1" unfolding m_def by linarith
    note ym = ym1 ym2
    from bitlen_bounds [OF m] have bb: "2 ^ nat (b - 1) \<le> m" "m < 2 ^ nat b"
      by (simp_all add: b_def)
    have b1: "1 \<le> b"
      using m by (simp add: b_def bitlen_alt_def)
    have e: "f64_exponent x = - b"
      using False by (simp add: f64_exponent_def y_def m_def b_def)
    have lo: "(2::real) ^ nat (b - 1) \<le> of_int m"
      using bb(1) by (simp add: numeral_power_le_of_int_cancel_iff)
    have "m + 1 \<le> 2 ^ nat b" using bb(2) by simp
    then have hi: "of_int m + 1 \<le> (2::real) ^ nat b"
      using of_int_le_iff [of "m + 1" "2 ^ nat b", where ?'a = real] by simp
    have p1: "(2::real) powi (- b) = 1 / 2 ^ nat b"
      using b1 by (simp add: power_int_def field_simps)
    have "(2::real) powi (- (b - 1)) = inverse (2 powi (b - 1))"
      by (rule power_int_minus)
    also have "\<dots> = 1 / 2 ^ nat (b - 1)"
      using b1 by (simp add: power_int_def field_simps)
    finally have p2: "(2::real) powi (f64_exponent x + 1) = 1 / 2 ^ nat (b - 1)"
      by (simp add: e)
    have "1 / x \<le> 2 ^ nat b" using ym(2) hi unfolding y_def by linarith
    then have c1: "1 / 2 ^ nat b \<le> x"
      using assms by (simp add: field_simps)
    have "2 ^ nat (b - 1) < 1 / x" using ym(1) lo unfolding y_def by linarith
    then have c2: "x < 1 / 2 ^ nat (b - 1)"
      using assms by (simp add: field_simps)
    have r1: "2 powi (f64_exponent x) \<le> x"
      unfolding e p1 using c1 by linarith
    have r2: "x < 2 powi (f64_exponent x + 1)"
      unfolding p2 using c2 by linarith
    show ?thesis using r1 r2 by blast
  qed
  then show "2 powi (f64_exponent x) \<le> x" and "x < 2 powi (f64_exponent x + 1)"
    by simp_all
qed

lemma f64_zero [simp]: "f64 0 = 0"
  by (simp add: f64_def)

lemma f64_pos_eq:
  assumes "0 < x"
  shows "f64 x = np_rint (x / 2 powi (f64_exponent x - 52)) * 2 powi (f64_exponent x - 52)"
  using assms by (simp add: f64_def Let_def)

lemma f64_nonneg:
  assumes "0 \<le> x"
  shows "0 \<le> f64 x"
proof (cases "x = 0")
  case True
  then show ?thesis by simp
next
  case False
  with assms have pos: "0 < x" by simp
  have u: "0 < (2::real) powi (f64_exponent x - 52)" by simp
  then have "0 \<le> x / 2 powi (f64_exponent x - 52)" using pos by simp
  then have "0 \<le> np_rint (x / 2 powi (f64_exponent x - 52))" by (rule np_rint_nonneg)
  then show ?thesis using u by (simp add: f64_pos_eq [OF pos])
qed

lemma f64_error:
  assumes "0 \<le> x"
  shows "\<bar>f64 x - x\<bar> \<le> x * f64_u"
proof (cases "x = 0")
  case True
  then show ?thesis by simp
next
  case False
  with assms have pos: "0 < x" by simp
  define ulp :: real where "ulp = 2 powi (f64_exponent x - 52)"
  define y where "y = x / ulp"
  have ulp_pos: "0 < ulp" by (simp add: ulp_def)
  have ulp_eq: "ulp = 2 powi (f64_exponent x) / 2 ^ 52"
    by (simp add: ulp_def power_int_diff)
  have "ulp * 2 ^ 52 \<le> x"
    using f64_exponent_bounds(1) [OF pos] by (simp add: ulp_eq)
  then have ulp_le: "(1 / 2) * ulp \<le> x * f64_u" by (simp add: f64_u_def)
  have x_eq: "x = y * ulp" using ulp_pos by (simp add: y_def)
  have fx: "f64 x = np_rint y * ulp"
    unfolding y_def ulp_def by (rule f64_pos_eq [OF pos])
  have "f64 x - x = np_rint y * ulp - y * ulp"
    by (simp only: fx x_eq [symmetric])
  also have "\<dots> = (np_rint y - y) * ulp"
    by (simp only: left_diff_distrib)
  finally have "\<bar>f64 x - x\<bar> = \<bar>np_rint y - y\<bar> * ulp"
    using ulp_pos by (simp add: abs_mult)
  also have "\<dots> \<le> (1 / 2) * ulp"
    using np_rint_error [of y] ulp_pos by (intro mult_right_mono) simp_all
  finally show ?thesis using ulp_le by linarith
qed

lemma f64_upper:
  assumes "0 \<le> x"
  shows "f64 x \<le> x * (1 + f64_u)"
proof -
  have "f64 x - x \<le> x * f64_u" using f64_error [OF assms] by linarith
  then show ?thesis by (simp add: algebra_simps)
qed

lemma f64_lower:
  assumes "0 \<le> x"
  shows "x * (1 - f64_u) \<le> f64 x"
proof -
  have "x - f64 x \<le> x * f64_u" using f64_error [OF assms] by linarith
  then show ?thesis by (simp add: algebra_simps)
qed

lemma f64_exponent_eq:
  assumes "2 ^ 52 \<le> x * 2 ^ k" and "x * 2 ^ k < 2 ^ 53"
  shows "f64_exponent x = 52 - int k"
proof -
  have pos: "0 < x"
  proof (rule ccontr)
    assume "\<not> 0 < x"
    then have "x * 2 ^ k \<le> 0" by (simp add: mult_nonpos_nonneg)
    with assms(1) show False by simp
  qed
  define e where "e = f64_exponent x"
  have lo: "2 powi e \<le> x" and hi: "x < 2 powi (e + 1)"
    unfolding e_def using f64_exponent_bounds [OF pos] by simp_all
  have pk: "(2::real) powi (int k) = 2 ^ k" by simp
  have "\<not> e + 1 \<le> 52 - int k"
  proof
    assume "e + 1 \<le> 52 - int k"
    then have "(2::real) powi (e + 1) \<le> 2 powi (52 - int k)"
      by (intro power_int_increasing) simp_all
    also have "\<dots> = 2 ^ 52 / 2 ^ k" by (simp add: power_int_diff)
    finally have "x < 2 ^ 52 / 2 ^ k" using hi by linarith
    then have "x * 2 ^ k < 2 ^ 52" by (simp add: pos_less_divide_eq)
    with assms(1) show False by linarith
  qed
  moreover have "\<not> 53 - int k \<le> e"
  proof
    assume "53 - int k \<le> e"
    then have "(2::real) powi (53 - int k) \<le> 2 powi e"
      by (intro power_int_increasing) simp_all
    moreover have "(2::real) powi (53 - int k) = 2 ^ 53 / 2 ^ k" by (simp add: power_int_diff)
    ultimately have "2 ^ 53 / 2 ^ k \<le> x" using lo by linarith
    then have "2 ^ 53 \<le> x * 2 ^ k" by (simp add: pos_divide_le_eq)
    with assms(2) show False by linarith
  qed
  ultimately show ?thesis unfolding e_def by linarith
qed

lemma f64_eval:
  assumes "2 ^ 52 \<le> x * 2 ^ k" and "x * 2 ^ k < 2 ^ 53"
  shows "f64 x = np_rint (x * 2 ^ k) / 2 ^ k"
proof -
  have pos: "0 < x"
  proof (rule ccontr)
    assume "\<not> 0 < x"
    then have "x * 2 ^ k \<le> 0" by (simp add: mult_nonpos_nonneg)
    with assms(1) show False by simp
  qed
  have "(2::real) powi (f64_exponent x - 52) = 2 powi (- int k)"
    by (simp add: f64_exponent_eq [OF assms])
  also have "\<dots> = 1 / 2 ^ k"
    by (simp add: power_int_minus field_simps)
  finally show ?thesis by (simp add: f64_pos_eq [OF pos])
qed

lemma f64_of_int:
  assumes "0 < n" and "n < 2 ^ 53"
  shows "f64 (of_int n) = of_int n"
proof -
  define b where "b = bitlen n"
  from bitlen_bounds [OF assms(1)] have bb: "2 ^ nat (b - 1) \<le> n" "n < 2 ^ nat b"
    by (simp_all add: b_def)
  have b1: "1 \<le> b" using assms(1) by (simp add: b_def bitlen_alt_def)
  have lt: "(2::int) ^ nat (b - 1) < 2 ^ 53" using bb(1) assms(2) by linarith
  have "nat (b - 1) < 53" using power_less_imp_less_exp [OF _ lt] by simp
  then have b53: "b \<le> 53" by linarith
  define k where "k = nat (53 - b)"
  have k1: "nat (b - 1) + k = 52" using b1 b53 by (simp add: k_def)
  have k2: "nat b + k = 53" using b1 b53 by (simp add: k_def)
  have "(2::int) ^ 52 = 2 ^ nat (b - 1) * 2 ^ k" by (simp add: k1 flip: power_add)
  also have "\<dots> \<le> n * 2 ^ k" using bb(1) by (simp add: mult_right_mono)
  finally have lo: "(2::int) ^ 52 \<le> n * 2 ^ k" .
  have "n * 2 ^ k < 2 ^ nat b * 2 ^ k" using bb(2) by simp
  also have "\<dots> = 2 ^ 53" by (simp add: k2 flip: power_add)
  finally have hi: "n * 2 ^ k < 2 ^ 53" .
  have lo': "(2::real) ^ 52 \<le> of_int n * 2 ^ k"
    using of_int_le_iff [of "2 ^ 52" "n * 2 ^ k", where ?'a = real] lo by simp
  have hi': "real_of_int n * 2 ^ k < 2 ^ 53"
    using of_int_less_iff [of "n * 2 ^ k" "2 ^ 53", where ?'a = real] hi by simp
  have "np_rint (real_of_int n * 2 ^ k) = of_int (n * 2 ^ k)"
    using np_rint_of_int [of "n * 2 ^ k"] by simp
  then show ?thesis by (simp add: f64_eval [OF lo' hi'])
qed

section \<open>Properties of the turbinable-flow clipping\<close>

text \<open>
  The part of the order properties that the code has: for a non-negative instream-flow
  requirement the result never decreases when the design flow grows, and it is never
  negative when the design flow is not.
\<close>

lemma calc_daily_flow_mono_design:
  assumes "0 \<le> ifr" and "qd1 \<le> qd2"
  shows "calc_daily_flow q qd1 ifr \<le> calc_daily_flow q qd2 ifr"
  using assms by (simp add: calc_daily_flow_def)

lemma calc_daily_flow_nonneg:
  assumes "0 \<le> ifr" and "0 \<le> qd"
  shows "0 \<le> calc_daily_flow q qd ifr"
  using assms by (simp add: calc_daily_flow_def)

lemma calc_daily_flow_upper:
  assumes "0 \<le> ifr" and "0 \<le> qd"
  shows "calc_daily_flow q qd ifr \<le> max qd (min q (ifr + qd))"
  using assms by (auto simp add: calc_daily_flow_def)

text \<open>
  C3 (turbinable flow is non-decreasing in the inflow and bounded by the design flow).
  With \<open>ifr = 0.9\<close> and \<open>qd = 4\<close> the inflow \<open>4.5\<close> lies in the middle branch
  (\<open>0.9 \<le> 4.5 < 4.9\<close>), so the function returns the inflow \<open>4.5\<close>, which is above the
  design flow; the larger inflow \<open>5\<close> is capped to \<open>4\<close>, which is below the value at \<open>4.5\<close>.
\<close>

theorem calc_daily_flow_above_design_flow:
  "calc_daily_flow 4.5 4 0.9 = 4.5
   \<and> calc_daily_flow 5 4 0.9 = 4
   \<and> \<not> calc_daily_flow 4.5 4 0.9 \<le> 4
   \<and> \<not> calc_daily_flow 4.5 4 0.9 \<le> calc_daily_flow 5 4 0.9"
  by (simp add: calc_daily_flow_def)

text \<open>
  C4 as stated (the clipping is idempotent for every \<open>q\<close>, \<open>qd\<close>, \<open>ifr\<close>) fails when the
  design flow is below the instream-flow requirement: \<open>q = 2\<close>, \<open>qd = 0.5\<close>, \<open>ifr = 0.9\<close>
  is capped to \<open>0.5\<close>, and \<open>0.5 < 0.9\<close> is clipped to \<open>0\<close> by the second application.
\<close>

theorem calc_daily_flow_not_idempotent:
  "calc_daily_flow (calc_daily_flow 2 0.5 0.9) 0.5 0.9 \<noteq> calc_daily_flow 2 0.5 0.9"
  by (simp add: calc_daily_flow_def)

text \<open>
  C4, amended: for a non-negative instream-flow requirement and a non-negative design
  flow, the clipping is idempotent for every inflow exactly when the design flow is zero
  or is at least the instream-flow requirement.
\<close>

theorem calc_daily_flow_idempotent_iff:
  assumes "0 \<le> ifr" and "0 \<le> qd"
  shows "(\<forall>q. calc_daily_flow (calc_daily_flow q qd ifr) qd ifr = calc_daily_flow q qd ifr)
         \<longleftrightarrow> (qd = 0 \<or> ifr \<le> qd)"
proof
  assume idem: "\<forall>q. calc_daily_flow (calc_daily_flow q qd ifr) qd ifr = calc_daily_flow q qd ifr"
  show "qd = 0 \<or> ifr \<le> qd"
  proof (rule ccontr)
    assume "\<not> (qd = 0 \<or> ifr \<le> qd)"
    then have lt: "qd < ifr" and nz: "qd \<noteq> 0" by auto
    have capped: "calc_daily_flow (ifr + qd) qd ifr = qd"
      using assms by (simp add: calc_daily_flow_def)
    have again: "calc_daily_flow qd qd ifr = 0"
      using lt by (simp add: calc_daily_flow_def)
    from idem have "calc_daily_flow (calc_daily_flow (ifr + qd) qd ifr) qd ifr
                    = calc_daily_flow (ifr + qd) qd ifr" by blast
    with capped again nz show False by simp
  qed
next
  assume "qd = 0 \<or> ifr \<le> qd"
  then show "\<forall>q. calc_daily_flow (calc_daily_flow q qd ifr) qd ifr = calc_daily_flow q qd ifr"
    using assms by (auto simp add: calc_daily_flow_def)
qed

theorem calc_daily_flow_idempotent_iff_witness:
  "(0::real) \<le> 0.9 \<and> (0::real) \<le> 4
   \<and> (\<forall>q. calc_daily_flow (calc_daily_flow q 4 0.9) 4 0.9 = calc_daily_flow q 4 0.9)"
  using calc_daily_flow_idempotent_iff [of "0.9" 4] by simp

text \<open>
  C7: the turbinable flow is \<open>0\<close> below the instream-flow requirement, the inflow itself
  from there up to \<open>ifr + qd\<close> (exclusive), and the design flow otherwise; with
  \<open>ifr = 0.9\<close> and \<open>qd = 4.0\<close> the inflows \<open>[0.5, 1.0, 4.0, 6.0]\<close> map to
  \<open>[0, 1.0, 4.0, 4.0]\<close>.
\<close>

theorem calc_daily_flow_branches:
  "(q < ifr \<longrightarrow> calc_daily_flow q qd ifr = 0)
   \<and> (ifr \<le> q \<and> q < ifr + qd \<longrightarrow> calc_daily_flow q qd ifr = q)
   \<and> (\<not> q < ifr \<and> \<not> q < ifr + qd \<longrightarrow> calc_daily_flow q qd ifr = qd)
   \<and> map (\<lambda>q. calc_daily_flow q 4.0 0.9) [0.5, 1.0, 4.0, 6.0] = [0, 1.0, 4.0, 4.0]"
  by (simp add: calc_daily_flow_def)

theorem calc_daily_flow_branches_witness:
  "(0.5::real) < 0.9 \<and> calc_daily_flow 0.5 4 0.9 = 0
   \<and> (0.9::real) \<le> 1 \<and> (1::real) < 0.9 + 4 \<and> calc_daily_flow 1 4 0.9 = 1
   \<and> \<not> (6::real) < 0.9 \<and> \<not> (6::real) < 0.9 + 4 \<and> calc_daily_flow 6 4 0.9 = 4"
  using calc_daily_flow_branches [of "0.5" "0.9" 4]
        calc_daily_flow_branches [of 1 "0.9" 4]
        calc_daily_flow_branches [of 6 "0.9" 4]
  by simp

text \<open>
  C10: the two clipping functions of the notebook, \<open>calc_flow_exceedance\<close> and
  \<open>calc_daily_flow\<close>, compute the same function.
\<close>

theorem calc_flow_exceedance_eq_calc_daily_flow:
  "calc_flow_exceedance q qd ifr = calc_daily_flow q qd ifr"
  by (simp add: calc_flow_exceedance_def calc_daily_flow_def)

section \<open>Properties of the rating-curve discharge recovery\<close>

lemma ols_rc_q_nonzero_slope:
  "slope \<noteq> Fin 0 \<Longrightarrow>
   ols_rc_q slope intercept h h0
     = Inr (PyFloat (np_exp (np_div (np_sub (np_log (np_sub h h0)) intercept) slope)))"
  by (simp add: ols_rc_q_def ols_rc_q_try_def)

text \<open>
  The handler of \<^verbatim>\<open>ValueError\<close> is never entered: no input makes the function return
  \<^verbatim>\<open>None\<close>, and no input makes it raise.
\<close>

lemma ols_rc_q_never_None: "ols_rc_q slope intercept h h0 \<noteq> Inr PyNone"
  by (simp add: ols_rc_q_def ols_rc_q_try_def)

lemma ols_rc_q_never_raises: "ols_rc_q slope intercept h h0 \<noteq> Inl e"
  by (simp add: ols_rc_q_def ols_rc_q_try_def)

text \<open>
  A stage below the datum gives \<open>nan\<close>, a stage equal to the datum gives \<open>0.0\<close> for a
  positive slope and \<open>inf\<close> for a negative one.
\<close>

lemma ols_rc_q_below_datum:
  assumes "s \<noteq> 0" and "h < h0"
  shows "ols_rc_q (Fin s) (Fin i) (Fin h) (Fin h0) = Inr (PyFloat NaN)"
  using assms by (simp add: ols_rc_q_def ols_rc_q_try_def)

lemma ols_rc_q_at_datum:
  assumes "s \<noteq> 0"
  shows "ols_rc_q (Fin s) (Fin i) (Fin h0) (Fin h0)
           = Inr (PyFloat (if 0 < s then Fin 0 else PInf))"
  using assms by (simp add: ols_rc_q_def ols_rc_q_try_def)

text \<open>
  C6 (a stage with \<open>h - h0 \<le> 0\<close> and a non-zero slope gives the "unavailable" result).
  With \<open>slope = 1\<close>, \<open>intercept = 0\<close>, \<open>h0 = 0\<close>: the stage \<open>h = 0\<close> gives the number \<open>0.0\<close>
  (\<open>log 0 = -inf\<close>, \<open>exp (-inf) = 0\<close>) and the stage \<open>h = -1\<close> gives \<open>nan\<close>; with
  \<open>slope = -1\<close> the stage \<open>h = 0\<close> gives \<open>inf\<close>. None of them is \<^verbatim>\<open>None\<close>.
\<close>

theorem ols_rc_q_nonpositive_stage_not_None:
  "ols_rc_q (Fin 1) (Fin 0) (Fin 0) (Fin 0) = Inr (PyFloat (Fin 0))
   \<and> ols_rc_q (Fin 1) (Fin 0) (Fin (- 1)) (Fin 0) = Inr (PyFloat NaN)
   \<and> ols_rc_q (Fin (- 1)) (Fin 0) (Fin 0) (Fin 0) = Inr (PyFloat PInf)"
  by (simp add: ols_rc_q_def ols_rc_q_try_def)

text \<open>
  C9: when the slope is exactly zero the function returns \<open>0\<close> for every stage, intercept
  and datum offset (finite or not); the \<^verbatim>\<open>try\<close> block with the division by the slope
  is not entered.
\<close>

theorem ols_rc_q_zero_slope: "ols_rc_q (Fin 0) intercept h h0 = Inr (PyInt 0)"
  by (simp add: ols_rc_q_def)

section \<open>Properties of the long-term series\<close>

lemma linregress_example:
  "linregress [Fin 1, Fin 2, Fin 3, Fin 4] [Fin 1.15, Fin 1.30, Fin 1.45, Fin 1.60]
     = Inr (Fin 0.15, Fin 1)"
  by (simp add: linregress_def mean_def Let_def)

lemma cell_best_fit_example:
  "cell_best_fit [(Fin 1, Fin 1.15), (Fin 2, Fin 1.30), (Fin 3, Fin 1.45), (Fin 4, Fin 1.60)]
     = Inr \<lparr>nb_slope = Fin 0.15, nb_intercept = Fin 1\<rparr>"
  by (simp add: cell_best_fit_def dropna_def linregress_def mean_def Let_def)

text \<open>
  Whatever the concurrent record is, the series that the notebook synthesizes is the
  line \<open>0.15 * q + 0.2\<close>: the two assignments of the plotting cell come between the fit
  and its use.
\<close>

lemma lt_series_Proj_Q_fixed_line:
  assumes "lt_series_Proj_Q concurrent_df regional_q = Inr proj_q"
  shows "proj_q = map (\<lambda>q. np_add (np_mul (Fin 0.15) q) (Fin 0.2)) regional_q"
  using assms
  by (auto simp add: lt_series_Proj_Q_def cell_lt_series_def cell_regression_plot_def
           split: sum.splits)

text \<open>
  C1 (the synthesized project discharge is \<open>fitted_slope * regional + fitted_intercept\<close>).
  On the concurrent record \<open>regional = [1, 2, 3, 4]\<close>,
  \<open>project = [1.15, 1.30, 1.45, 1.60]\<close> the fit is \<open>slope = 0.15\<close>, \<open>intercept = 1.0\<close>;
  applied to the regional record \<open>[1, 2, 3, 4, 10]\<close> it gives
  \<open>[1.15, 1.30, 1.45, 1.60, 2.5]\<close>, while the notebook computes
  \<open>[0.35, 0.5, 0.65, 0.8, 1.7]\<close>.
\<close>

theorem lt_series_not_from_fit:
  "lt_series_Proj_Q
     [(Fin 1, Fin 1.15), (Fin 2, Fin 1.30), (Fin 3, Fin 1.45), (Fin 4, Fin 1.60)]
     [Fin 1, Fin 2, Fin 3, Fin 4, Fin 10]
     = Inr [Fin 0.35, Fin 0.5, Fin 0.65, Fin 0.8, Fin 1.7]
   \<and> spec_lt_series_Proj_Q
     [(Fin 1, Fin 1.15), (Fin 2, Fin 1.30), (Fin 3, Fin 1.45), (Fin 4, Fin 1.60)]
     [Fin 1, Fin 2, Fin 3, Fin 4, Fin 10]
     = Inr [Fin 1.15, Fin 1.30, Fin 1.45, Fin 1.60, Fin 2.5]"
  unfolding lt_series_Proj_Q_def spec_lt_series_Proj_Q_def cell_best_fit_example
  by (simp add: cell_lt_series_def cell_regression_plot_def)

section \<open>Properties of the area-under-FDC annual energy\<close>

subsection \<open>Rounded sums and the power formula\<close>

lemma f64_u_pos: "0 < f64_u"
  by (simp add: f64_u_def)

lemma f64_1: "f64 1 = 1"
  using f64_of_int [of 1] by simp

lemma f64_8760: "f64 8760 = 8760"
  using f64_of_int [of 8760] by simp

lemma f64_upper_pow:
  assumes "0 \<le> x" and "x \<le> y * (1 + f64_u) ^ n"
  shows "f64 x \<le> y * (1 + f64_u) ^ Suc n"
proof -
  have "f64 x \<le> x * (1 + f64_u)" using assms(1) by (rule f64_upper)
  also have "\<dots> \<le> (y * (1 + f64_u) ^ n) * (1 + f64_u)"
    using assms(2) f64_u_pos by (intro mult_right_mono) simp_all
  finally show ?thesis by (simp add: ac_simps)
qed

text \<open>
  A sum of \<open>n\<close> numbers between \<open>0\<close> and \<open>c\<close>, rounded after every addition, is at most
  \<open>n * c * (1 + u)^n\<close>, with \<open>u\<close> the unit roundoff.
\<close>

lemma py_sum_from_bounds:
  assumes "\<And>x. x \<in> set xs \<Longrightarrow> 0 \<le> x \<and> x \<le> c" and "0 \<le> c" and "0 \<le> acc"
  shows "0 \<le> foldl (\<lambda>s x. f64 (s + x)) acc xs
         \<and> foldl (\<lambda>s x. f64 (s + x)) acc xs
             \<le> (acc + real (length xs) * c) * (1 + f64_u) ^ length xs"
  using assms
proof (induction xs arbitrary: acc)
  case Nil
  then show ?case by simp
next
  case (Cons x xs)
  let ?n = "real (length xs)"
  let ?a = "f64 (acc + x)"
  have x: "0 \<le> x" "x \<le> c" using Cons.prems(1) by simp_all
  have a0: "0 \<le> ?a" using x(1) Cons.prems(3) by (intro f64_nonneg) simp
  have "?a \<le> (acc + x) * (1 + f64_u)" using x(1) Cons.prems(3) by (intro f64_upper) simp
  also have "\<dots> \<le> (acc + c) * (1 + f64_u)"
    using x(2) f64_u_pos by (intro mult_right_mono) simp_all
  finally have a1: "?a \<le> (acc + c) * (1 + f64_u)" .
  have nc: "0 \<le> ?n * c" using Cons.prems(2) by simp
  have "?n * c \<le> (?n * c) * (1 + f64_u)"
    using nc f64_u_pos by (simp add: mult_le_cancel_left1)
  with a1 have a2: "?a + ?n * c \<le> (acc + real (length (x # xs)) * c) * (1 + f64_u)"
    by (simp add: algebra_simps)
  from Cons.IH [of ?a] Cons.prems(1,2) a0
  have ih: "0 \<le> foldl (\<lambda>s x. f64 (s + x)) ?a xs"
    "foldl (\<lambda>s x. f64 (s + x)) ?a xs \<le> (?a + ?n * c) * (1 + f64_u) ^ length xs"
    by simp_all
  have "(?a + ?n * c) * (1 + f64_u) ^ length xs
        \<le> ((acc + real (length (x # xs)) * c) * (1 + f64_u)) * (1 + f64_u) ^ length xs"
    using a2 f64_u_pos by (intro mult_right_mono) simp_all
  also have "\<dots> = (acc + real (length (x # xs)) * c) * (1 + f64_u) ^ length (x # xs)"
    by simp
  finally show ?case using ih by simp
qed

lemma py_sum_bounds:
  assumes "\<And>x. x \<in> set xs \<Longrightarrow> 0 \<le> x \<and> x \<le> c" and "0 \<le> c"
  shows "0 \<le> py_sum xs" and "py_sum xs \<le> (real (length xs) * c) * (1 + f64_u) ^ length xs"
  using py_sum_from_bounds [of xs c 0] assms by (simp_all add: py_sum_def)

text \<open>
  The power formula is three rounded multiplications by positive constants, so it is
  between \<open>(1 - u)^3\<close> and \<open>(1 + u)^3\<close> times the exact product.
\<close>

lemma calc_power_nonneg:
  assumes "0 \<le> q"
  shows "0 \<le> calc_power q"
  unfolding calc_power_def using assms
  by (intro f64_nonneg mult_nonneg_nonneg) simp_all

lemma calc_power_upper:
  assumes "0 \<le> q" and "q \<le> y * (1 + f64_u) ^ n"
  shows "calc_power q \<le> (y * (f64 100.4 * f64 0.76 * f64 9.81)) * (1 + f64_u) ^ (n + 3)"
proof -
  let ?c1 = "f64 100.4" and ?c2 = "f64 0.76" and ?c3 = "f64 9.81"
  have c: "0 \<le> ?c1" "0 \<le> ?c2" "0 \<le> ?c3" by (intro f64_nonneg; simp)+
  have s1: "q * ?c1 \<le> (y * ?c1) * (1 + f64_u) ^ n"
    using assms(2) c(1) mult_right_mono [of q "y * (1 + f64_u) ^ n" ?c1]
    by (simp add: mult.assoc mult.left_commute mult.commute)
  have p1: "0 \<le> q * ?c1" using assms(1) c(1) by simp
  have r1: "f64 (q * ?c1) \<le> (y * ?c1) * (1 + f64_u) ^ Suc n"
    using p1 s1 by (rule f64_upper_pow)
  have q1: "0 \<le> f64 (q * ?c1)" using p1 by (rule f64_nonneg)
  have s2: "f64 (q * ?c1) * ?c2 \<le> (y * ?c1 * ?c2) * (1 + f64_u) ^ Suc n"
    using r1 c(2) mult_right_mono [of "f64 (q * ?c1)" "(y * ?c1) * (1 + f64_u) ^ Suc n" ?c2]
    by (simp add: mult.assoc mult.left_commute mult.commute)
  have p2: "0 \<le> f64 (q * ?c1) * ?c2" using q1 c(2) by simp
  have r2: "f64 (f64 (q * ?c1) * ?c2) \<le> (y * ?c1 * ?c2) * (1 + f64_u) ^ Suc (Suc n)"
    using p2 s2 by (rule f64_upper_pow)
  have q2: "0 \<le> f64 (f64 (q * ?c1) * ?c2)" using p2 by (rule f64_nonneg)
  have s3: "f64 (f64 (q * ?c1) * ?c2) * ?c3 \<le> (y * ?c1 * ?c2 * ?c3) * (1 + f64_u) ^ Suc (Suc n)"
    using r2 c(3)
      mult_right_mono [of "f64 (f64 (q * ?c1) * ?c2)" "(y * ?c1 * ?c2) * (1 + f64_u) ^ Suc (Suc n)" ?c3]
    by (simp add: mult.assoc mult.left_commute mult.commute)
  have p3: "0 \<le> f64 (f64 (q * ?c1) * ?c2) * ?c3" using q2 c(3) by simp
  have r3: "f64 (f64 (f64 (q * ?c1) * ?c2) * ?c3)
            \<le> (y * ?c1 * ?c2 * ?c3) * (1 + f64_u) ^ Suc (Suc (Suc n))"
    using p3 s3 by (rule f64_upper_pow)
  have "Suc (Suc (Suc n)) = n + 3" by simp
  with r3 show ?thesis unfolding calc_power_def by (simp only: mult.assoc)
qed

lemma calc_power_lower:
  assumes "0 \<le> q"
  shows "(q * (f64 100.4 * f64 0.76 * f64 9.81)) * (1 - f64_u) ^ 3 \<le> calc_power q"
proof -
  let ?c1 = "f64 100.4" and ?c2 = "f64 0.76" and ?c3 = "f64 9.81"
  let ?d = "1 - f64_u"
  have c: "0 \<le> ?c1" "0 \<le> ?c2" "0 \<le> ?c3" by (intro f64_nonneg; simp)+
  have d: "0 \<le> ?d" by (simp add: f64_u_def)
  have p1: "0 \<le> q * ?c1" using assms c(1) by simp
  have r1: "(q * ?c1) * ?d \<le> f64 (q * ?c1)" using p1 by (rule f64_lower)
  have q1: "0 \<le> f64 (q * ?c1)" using p1 by (rule f64_nonneg)
  have p2: "0 \<le> f64 (q * ?c1) * ?c2" using q1 c(2) by simp
  have "((q * ?c1) * ?d) * ?c2 \<le> f64 (q * ?c1) * ?c2"
    using r1 c(2) by (rule mult_right_mono)
  then have "(((q * ?c1) * ?d) * ?c2) * ?d \<le> (f64 (q * ?c1) * ?c2) * ?d"
    using d by (rule mult_right_mono)
  also have "\<dots> \<le> f64 (f64 (q * ?c1) * ?c2)" using p2 by (rule f64_lower)
  finally have r2: "(((q * ?c1) * ?d) * ?c2) * ?d \<le> f64 (f64 (q * ?c1) * ?c2)" .
  have q2: "0 \<le> f64 (f64 (q * ?c1) * ?c2)" using p2 by (rule f64_nonneg)
  have p3: "0 \<le> f64 (f64 (q * ?c1) * ?c2) * ?c3" using q2 c(3) by simp
  have "((((q * ?c1) * ?d) * ?c2) * ?d) * ?c3 \<le> f64 (f64 (q * ?c1) * ?c2) * ?c3"
    using r2 c(3) by (rule mult_right_mono)
  then have "(((((q * ?c1) * ?d) * ?c2) * ?d) * ?c3) * ?d \<le> (f64 (f64 (q * ?c1) * ?c2) * ?c3) * ?d"
    using d by (rule mult_right_mono)
  also have "\<dots> \<le> f64 (f64 (f64 (q * ?c1) * ?c2) * ?c3)" using p3 by (rule f64_lower)
  finally have ineq: "(((((q * ?c1) * ?d) * ?c2) * ?d) * ?c3) * ?d \<le> calc_power q"
    by (simp only: calc_power_def)
  have eq: "(((((q * ?c1) * ?d) * ?c2) * ?d) * ?c3) * ?d = (q * (?c1 * ?c2 * ?c3)) * ?d ^ 3"
    by (simp add: power3_eq_cube ac_simps)
  show ?thesis using ineq unfolding eq .
qed

lemma one_plus_pow_le:
  fixes u :: real
  assumes "0 \<le> u" and "real n * u \<le> 1 / 2"
  shows "(1 + u) ^ n \<le> 1 + 2 * real n * u"
  using assms(2)
proof (induction n)
  case 0
  then show ?case by simp
next
  case (Suc n)
  have nu: "real n * u \<le> 1 / 2"
  proof -
    have "real n * u \<le> real (Suc n) * u" using assms(1) by (intro mult_right_mono) simp_all
    with Suc.prems show ?thesis by linarith
  qed
  have "2 * (real n * u) * u \<le> 1 * u"
    using nu assms(1) by (intro mult_right_mono) simp_all
  then have sq: "2 * real n * u * u \<le> u" by (simp add: ac_simps)
  have "(1 + u) ^ Suc n = (1 + u) ^ n * (1 + u)" by simp
  also have "\<dots> \<le> (1 + 2 * real n * u) * (1 + u)"
    using Suc.IH [OF nu] assms(1) by (intro mult_right_mono) simp_all
  also have "\<dots> = 1 + 2 * real n * u + u + 2 * real n * u * u" by (simp add: algebra_simps)
  also have "\<dots> \<le> 1 + 2 * real (Suc n) * u" using sq by (simp add: algebra_simps)
  finally show ?case .
qed

lemma f64_tolerance:
  "(1 + f64_u) ^ 107 \<le> (1 - f64_u) ^ 3 * (1 + 1 / 2 ^ 45)"
proof -
  have "(1 + f64_u) ^ 107 \<le> 1 + 2 * real 107 * f64_u"
    by (rule one_plus_pow_le) (simp_all add: f64_u_def)
  also have "\<dots> \<le> (1 - f64_u) ^ 3 * (1 + 1 / 2 ^ 45)"
    by (simp add: f64_u_def power3_eq_cube)
  finally show ?thesis .
qed

lemma py_sum_from_replicate_int:
  assumes "0 \<le> a" and "0 < c" and "a + int n * c < 2 ^ 53"
  shows "foldl (\<lambda>s x. f64 (s + x)) (of_int a) (replicate n (of_int c)) = of_int (a + int n * c)"
  using assms
proof (induction n arbitrary: a)
  case 0
  then show ?case by simp
next
  case (Suc n)
  have lt: "a + c + int n * c < 2 ^ 53" using Suc.prems(3) by (simp add: algebra_simps)
  have "0 \<le> int n * c" using Suc.prems(2) by simp
  then have "a + c < 2 ^ 53" using lt by linarith
  moreover have "0 < a + c" using Suc.prems(1,2) by simp
  ultimately have "f64 (of_int (a + c)) = of_int (a + c)" by (intro f64_of_int)
  then have step: "f64 (of_int a + of_int c) = of_int (a + c)" by simp
  have "0 \<le> a + c" using Suc.prems(1,2) by simp
  from Suc.IH [OF this Suc.prems(2) lt] show ?case
    by (simp add: step algebra_simps)
qed

lemma py_sum_replicate_100:
  "py_sum (replicate 100 2) = 200" "py_sum (replicate 100 5) = 500"
  using py_sum_from_replicate_int [of 0 2 100] py_sum_from_replicate_int [of 0 5 100]
  by (simp_all add: py_sum_def)

subsection \<open>The quantiles\<close>

lemma py_map_total:
  assumes "\<And>x. x \<in> set xs \<Longrightarrow> \<exists>y. f x = Inr y"
  shows "\<exists>ys. py_map f xs = Inr ys \<and> length ys = length xs"
  using assms
proof (induction xs)
  case Nil
  then show ?case by simp
next
  case (Cons x xs)
  then obtain y where y: "f x = Inr y" by auto
  from Cons obtain ys where ys: "py_map f xs = Inr ys" "length ys = length xs" by auto
  show ?case using y ys by simp
qed

lemma py_map_const:
  assumes "\<And>x. x \<in> set xs \<Longrightarrow> f x = Inr c"
  shows "py_map f xs = Inr (replicate (length xs) c)"
  using assms by (induction xs) auto

lemma length_np_linspace: "length (np_linspace a b n) = n"
  by (simp add: np_linspace_def)

lemma np_linspace_percent_range:
  assumes "p \<in> set (np_linspace 0 100 100)"
  shows "0 \<le> p \<and> p \<le> 100"
proof -
  from assms obtain i :: nat where i: "i < 100" and p: "p = real i * (100 / 99)"
    by (auto simp add: np_linspace_def)
  from i have "real i \<le> 99" by simp
  then show ?thesis using p by simp
qed

lemma np_percentile_total:
  assumes "a \<noteq> []" and "0 \<le> p" and "p \<le> 100"
  shows "\<exists>v. np_percentile a p = Inr v"
  using assms by (simp add: np_percentile_def Let_def)

lemma np_percentile_singleton:
  assumes "0 \<le> p" and "p \<le> 100"
  shows "np_percentile [x] p = Inr x"
  using assms by (simp add: np_percentile_def Let_def)

lemma length_fdc_flow_filtered:
  "length (fdc_flow_filtered q_vals qd ifr) \<le> length q_vals"
  by (simp add: fdc_flow_filtered_def)

lemma q_vals_total:
  assumes "data \<noteq> []"
  shows "\<exists>q_vals. py_map (np_percentile data) (np_linspace 0 100 100) = Inr q_vals
                  \<and> length q_vals = 100"
proof -
  have "\<And>p. p \<in> set (np_linspace 0 100 100) \<Longrightarrow> \<exists>v. np_percentile data p = Inr v"
    using assms np_linspace_percent_range np_percentile_total by blast
  then show ?thesis
    using py_map_total [of "np_linspace 0 100 100" "np_percentile data"]
    by (simp add: length_np_linspace)
qed

lemma q_vals_singleton:
  "py_map (np_percentile [x]) (np_linspace 0 100 100) = Inr (replicate 100 x)"
proof -
  have "\<And>p. p \<in> set (np_linspace 0 100 100) \<Longrightarrow> np_percentile [x] p = Inr x"
    using np_linspace_percent_range np_percentile_singleton by blast
  then show ?thesis
    using py_map_const [of "np_linspace 0 100 100" "np_percentile [x]" x]
    by (simp add: length_np_linspace)
qed

subsection \<open>The energy\<close>

lemma fdc_flow_filtered_range:
  assumes "x \<in> set (fdc_flow_filtered q_vals qd ifr)"
  shows "0 \<le> x \<and> x \<le> qd"
proof -
  have "0 \<le> f64 0.9" by (rule f64_nonneg) simp
  with assms show ?thesis by (auto simp add: fdc_flow_filtered_def np_clip_def)
qed

lemma calc_area_under_fdc_Inr:
  assumes "py_map (np_percentile data) (np_linspace 0 100 100) = Inr q_vals"
  shows "calc_area_under_fdc data qd ifr
         = Inr (f64 (py_sum q_vals / 100),
                f64 (f64 (calc_power (f64 (py_sum (map f64 (fdc_flow_filtered q_vals qd ifr)) / 100))
                          * 8760) / 1000000))"
  using assms by (simp add: calc_area_under_fdc_def Let_def f64_1 f64_8760)

lemma calc_area_under_fdc_total:
  assumes "data \<noteq> []"
  shows "\<exists>est e. calc_area_under_fdc data qd ifr = Inr (est, e)"
proof -
  from q_vals_total [OF assms] obtain q_vals
    where "py_map (np_percentile data) (np_linspace 0 100 100) = Inr q_vals" by blast
  from calc_area_under_fdc_Inr [OF this] show ?thesis by blast
qed

lemma fdc_effective_flow_bounds:
  fixes qd ifr :: real and q_vals :: "real list"
  assumes "0 \<le> qd" and "length q_vals = 100"
  defines "eff \<equiv> f64 (py_sum (map f64 (fdc_flow_filtered q_vals qd ifr)) / 100)"
  shows "0 \<le> eff" and "eff \<le> qd * (1 + f64_u) ^ 102"
proof -
  let ?fl = "fdc_flow_filtered q_vals qd ifr"
  let ?c = "qd * (1 + f64_u)"
  have c0: "0 \<le> ?c" using assms(1) f64_u_pos by simp
  have terms: "\<And>t. t \<in> set (map f64 ?fl) \<Longrightarrow> 0 \<le> t \<and> t \<le> ?c"
  proof -
    fix t assume "t \<in> set (map f64 ?fl)"
    then obtain x where x: "x \<in> set ?fl" and t: "t = f64 x" by auto
    from fdc_flow_filtered_range [OF x] have r: "0 \<le> x" "x \<le> qd" by simp_all
    have "f64 x \<le> x * (1 + f64_u)" using r(1) by (rule f64_upper)
    also have "\<dots> \<le> ?c" using r(2) f64_u_pos by (intro mult_right_mono) simp_all
    finally show "0 \<le> t \<and> t \<le> ?c" using f64_nonneg [OF r(1)] t by simp
  qed
  define n where "n = length (map f64 ?fl)"
  have n100: "n \<le> 100"
    using length_fdc_flow_filtered [of q_vals qd ifr] assms(2) by (simp add: n_def)
  have s0: "0 \<le> py_sum (map f64 ?fl)"
    using py_sum_bounds(1) [of "map f64 ?fl" ?c] terms c0 by blast
  have s1: "py_sum (map f64 ?fl) \<le> (real n * ?c) * (1 + f64_u) ^ n"
    unfolding n_def using py_sum_bounds(2) [of "map f64 ?fl" ?c] terms c0 by blast
  have "real n * ?c \<le> 100 * ?c" using n100 c0 by (intro mult_right_mono) simp_all
  moreover have "(1 + f64_u) ^ n \<le> (1 + f64_u) ^ 100"
    using n100 f64_u_pos by (intro power_increasing) simp_all
  ultimately have "(real n * ?c) * (1 + f64_u) ^ n \<le> (100 * ?c) * (1 + f64_u) ^ 100"
    using c0 f64_u_pos assms(1) by (intro mult_mono) simp_all
  with s1 have "py_sum (map f64 ?fl) \<le> (100 * ?c) * (1 + f64_u) ^ 100" by linarith
  then have "py_sum (map f64 ?fl) / 100 \<le> ?c * (1 + f64_u) ^ 100" by simp
  also have "\<dots> = qd * (1 + f64_u) ^ Suc 100" by (simp only: power_Suc mult.assoc)
  also have "\<dots> = qd * (1 + f64_u) ^ 101" by simp
  finally have s2: "py_sum (map f64 ?fl) / 100 \<le> qd * (1 + f64_u) ^ 101" .
  have s3: "0 \<le> py_sum (map f64 ?fl) / 100" using s0 by simp
  show "0 \<le> eff" unfolding eff_def using s3 by (rule f64_nonneg)
  have "f64 (py_sum (map f64 ?fl) / 100) \<le> qd * (1 + f64_u) ^ Suc 101"
    using s3 s2 by (rule f64_upper_pow)
  then show "eff \<le> qd * (1 + f64_u) ^ 102" unfolding eff_def by simp
qed

lemma fdc_energy_bounds:
  assumes "0 \<le> qd" and "0 \<le> eff" and "eff \<le> qd * (1 + f64_u) ^ 102"
  defines "e \<equiv> f64 (f64 (calc_power eff * 8760) / 1000000)"
  shows "0 \<le> e" and "e \<le> calc_power qd * 8760 / 1000000 * (1 + 1 / 2 ^ 45)"
proof -
  let ?K = "f64 100.4 * f64 0.76 * f64 9.81"
  have K0: "0 \<le> ?K" by (intro mult_nonneg_nonneg f64_nonneg) simp_all
  define A where "A = qd * ?K * 8760 / 1000000"
  have A0: "0 \<le> A"
    unfolding A_def
    by (intro divide_nonneg_nonneg mult_nonneg_nonneg f64_nonneg assms(1)) simp_all
  have p0: "0 \<le> calc_power eff" using assms(2) by (rule calc_power_nonneg)
  have p1: "calc_power eff \<le> (qd * ?K) * (1 + f64_u) ^ (102 + 3)"
    using assms(2,3) by (rule calc_power_upper)
  have m0: "0 \<le> calc_power eff * 8760" using p0 by simp
  have "calc_power eff * 8760 \<le> ((qd * ?K) * (1 + f64_u) ^ 105) * 8760"
    using p1 by simp
  then have m1: "calc_power eff * 8760 \<le> (qd * ?K * 8760) * (1 + f64_u) ^ 105"
    by (simp add: ac_simps)
  have r0: "0 \<le> f64 (calc_power eff * 8760)" using m0 by (rule f64_nonneg)
  have r1: "f64 (calc_power eff * 8760) \<le> (qd * ?K * 8760) * (1 + f64_u) ^ Suc 105"
    using m0 m1 by (rule f64_upper_pow)
  have d0: "0 \<le> f64 (calc_power eff * 8760) / 1000000" using r0 by simp
  have eqA: "((qd * ?K * 8760) * (1 + f64_u) ^ Suc 105) / 1000000 = A * (1 + f64_u) ^ Suc 105"
    unfolding A_def by (simp only: times_divide_eq_left)
  have "f64 (calc_power eff * 8760) / 1000000
        \<le> ((qd * ?K * 8760) * (1 + f64_u) ^ Suc 105) / 1000000"
    using r1 by (intro divide_right_mono) simp_all
  then have d1: "f64 (calc_power eff * 8760) / 1000000 \<le> A * (1 + f64_u) ^ Suc 105"
    unfolding eqA .
  show "0 \<le> e" unfolding e_def using d0 by (rule f64_nonneg)
  have "e \<le> A * (1 + f64_u) ^ Suc (Suc 105)"
    unfolding e_def using d0 d1 by (rule f64_upper_pow)
  then have e1: "e \<le> A * (1 + f64_u) ^ 107" by simp
  have "A * (1 + f64_u) ^ 107 \<le> A * ((1 - f64_u) ^ 3 * (1 + 1 / 2 ^ 45))"
    using f64_tolerance A0 by (rule mult_left_mono)
  also have "\<dots> = (A * (1 - f64_u) ^ 3) * (1 + 1 / 2 ^ 45)" by (simp only: mult.assoc)
  finally have e2: "e \<le> (A * (1 - f64_u) ^ 3) * (1 + 1 / 2 ^ 45)" using e1 by linarith
  have "(qd * ?K) * (1 - f64_u) ^ 3 \<le> calc_power qd"
    using assms(1) by (rule calc_power_lower)
  then have "((qd * ?K) * (1 - f64_u) ^ 3) * 8760 \<le> calc_power qd * 8760"
    by (rule mult_right_mono) simp
  then have "((qd * ?K) * (1 - f64_u) ^ 3) * 8760 / 1000000 \<le> calc_power qd * 8760 / 1000000"
    by (rule divide_right_mono) simp
  moreover have "((qd * ?K) * (1 - f64_u) ^ 3) * 8760 / 1000000 = A * (1 - f64_u) ^ 3"
    by (simp add: A_def field_simps)
  ultimately have b: "A * (1 - f64_u) ^ 3 \<le> calc_power qd * 8760 / 1000000" by linarith
  have "(A * (1 - f64_u) ^ 3) * (1 + 1 / 2 ^ 45)
        \<le> (calc_power qd * 8760 / 1000000) * (1 + 1 / 2 ^ 45)"
    using b by (intro mult_right_mono) simp_all
  with e2 show "e \<le> calc_power qd * 8760 / 1000000 * (1 + 1 / 2 ^ 45)" by linarith
qed

text \<open>
  C8, amended: for every non-empty discharge series and every design flow
  \<open>0 \<le> qd \<le> 2^1000\<close> (the range in which no operation overflows) the function returns,
  and the annual energy it returns is non-negative and at most
  \<open>calc_power qd * 8760 / 1e6\<close> times \<open>1 + 2^-45\<close>: the hundred rounded additions, the
  division and the power formula can lift the result above full-capacity generation, by
  a relative error of at most \<open>2^-45\<close>.
\<close>

theorem calc_area_under_fdc_energy_bounds:
  assumes "data \<noteq> []" and "0 \<le> qd" and "qd \<le> 2 ^ 1000"
  shows "\<exists>est e. calc_area_under_fdc data qd ifr = Inr (est, e)
                 \<and> 0 \<le> e \<and> e \<le> calc_power qd * 8760 / 1000000 * (1 + 1 / 2 ^ 45)"
proof -
  from q_vals_total [OF assms(1)] obtain q_vals
    where qv: "py_map (np_percentile data) (np_linspace 0 100 100) = Inr q_vals"
      and len: "length q_vals = 100" by blast
  define eff where "eff = f64 (py_sum (map f64 (fdc_flow_filtered q_vals qd ifr)) / 100)"
  have eff: "0 \<le> eff" "eff \<le> qd * (1 + f64_u) ^ 102"
    unfolding eff_def using assms(2) len by (rule fdc_effective_flow_bounds)+
  have res: "calc_area_under_fdc data qd ifr
             = Inr (f64 (py_sum q_vals / 100), f64 (f64 (calc_power eff * 8760) / 1000000))"
    unfolding eff_def by (rule calc_area_under_fdc_Inr [OF qv])
  from fdc_energy_bounds [OF assms(2) eff] res show ?thesis by blast
qed

theorem calc_area_under_fdc_energy_bounds_witness:
  "[2::real] \<noteq> [] \<and> (0::real) \<le> 4 \<and> (4::real) \<le> 2 ^ 1000
   \<and> (\<exists>est e. calc_area_under_fdc [2] 4 0.9 = Inr (est, e)
                \<and> 0 \<le> e \<and> e \<le> calc_power 4 * 8760 / 1000000 * (1 + 1 / 2 ^ 45))"
  using calc_area_under_fdc_energy_bounds [of "[2]" 4 "0.9"] by simp

text \<open>
  The parameter \<open>ifr\<close> does not occur in the body: the filter compares with the
  literal \<open>0.9\<close>.
\<close>

lemma calc_area_under_fdc_ignores_ifr:
  "calc_area_under_fdc data qd ifr = calc_area_under_fdc data qd ifr'"
  unfolding calc_area_under_fdc_def fdc_flow_filtered_def by (rule refl)

lemma fdc_flow_filtered_replicate:
  "fdc_flow_filtered (replicate n x) qd ifr
     = (if np_clip x 0 qd > f64 0.9 then replicate n (np_clip x 0 qd) else [])"
  by (simp add: fdc_flow_filtered_def)

lemma f64_0_9_less_1: "f64 0.9 < 1"
proof -
  have "f64 0.9 \<le> 0.9 * (1 + f64_u)" by (rule f64_upper) simp
  also have "\<dots> < 1" by (simp add: f64_u_def)
  finally show ?thesis .
qed

lemma py_sum_step:
  assumes "m = Suc n" and "py_sum (replicate n q) = s" and "f64 (s + q) = s'"
  shows "py_sum (replicate m q) = s'"
proof -
  have "replicate m q = replicate n q @ [q]"
    unfolding assms(1) by (simp add: replicate_append_same)
  then have "py_sum (replicate m q) = f64 (py_sum (replicate n q) + q)"
    by (simp add: py_sum_def)
  then show ?thesis by (simp add: assms(2,3))
qed

text \<open>
  C2 (the clipped values that are discarded are those \<open>\<le> ifr\<close>). For the series \<open>[2]\<close>
  every quantile is \<open>2\<close>; with \<open>qd = 4\<close> and \<open>ifr = 3\<close> all hundred clipped values
  are \<open>2 \<le> ifr\<close>, yet all of them survive the filter and the energy is that of an
  effective flow of \<open>2\<close>, about \<open>13.11\<close>, the same as with \<open>ifr = 0\<close>.
\<close>

theorem calc_area_under_fdc_threshold_fixed:
  "py_map (np_percentile [2]) (np_linspace 0 100 100) = Inr (replicate 100 2)
   \<and> fdc_flow_filtered (replicate 100 2) 4 3 = replicate 100 2
   \<and> calc_area_under_fdc [2] 4 3 = Inr (2, (3691392335682909 / 281474976710656))
   \<and> calc_area_under_fdc [2] 4 0 = Inr (2, (3691392335682909 / 281474976710656))"
proof -
  have c1: "f64 100.4 = (3532510957718733 / 35184372088832)"
    by (subst f64_eval [where k = 46]) (simp_all add: np_rint_def)
  have c2: "f64 0.76 = (3422735716801577 / 4503599627370496)"
    by (subst f64_eval [where k = 53]) (simp_all add: np_rint_def)
  have c3: "f64 9.81 = (5522539043063071 / 562949953421312)"
    by (subst f64_eval [where k = 49]) (simp_all add: np_rint_def)
  have x1: "f64 (2 * (3532510957718733 / 35184372088832)) = (3532510957718733 / 17592186044416)"
    by (subst f64_eval [where k = 45]) (simp_all add: np_rint_def)
  have x2: "f64 ((3532510957718733 / 17592186044416) * (3422735716801577 / 4503599627370496)) = (2684708327866237 / 17592186044416)"
    by (subst f64_eval [where k = 45]) (simp_all add: np_rint_def)
  have x3: "f64 ((2684708327866237 / 17592186044416) * (5522539043063071 / 562949953421312)) = (6584247174091947 / 4398046511104)"
    by (subst f64_eval [where k = 42]) (simp_all add: np_rint_def)
  have y1: "f64 ((6584247174091947 / 4398046511104) * 8760) = (3520386062319669 / 268435456)"
    by (subst f64_eval [where k = 29]) (simp_all add: np_rint_def)
  have e: "f64 ((3520386062319669 / 268435456) / 1000000) = (3691392335682909 / 281474976710656)"
    by (subst f64_eval [where k = 49]) (simp_all add: np_rint_def)
  have two: "f64 2 = 2" using f64_of_int [of 2] by simp
  have filt: "\<And>ifr. fdc_flow_filtered (replicate 100 2) 4 ifr = replicate 100 2"
    using f64_0_9_less_1 by (simp add: fdc_flow_filtered_replicate np_clip_def)
  have pw: "calc_power 2 = (6584247174091947 / 4398046511104)"
    unfolding calc_power_def by (simp only: c1 c2 c3 x1 x2 x3)
  have en: "f64 (f64 (calc_power 2 * 8760) / 1000000) = (3691392335682909 / 281474976710656)"
    by (simp only: pw y1 e)
  have res: "\<And>ifr. calc_area_under_fdc [2] 4 ifr = Inr (2, (3691392335682909 / 281474976710656))"
    by (simp add: calc_area_under_fdc_Inr [OF q_vals_singleton] filt two py_sum_replicate_100 en)
  show ?thesis by (simp add: q_vals_singleton filt res)
qed

text \<open>
  C8 as stated (the annual energy is at most \<open>calc_power qd * 8760\<close>, scaled by \<open>1e-6\<close>)
  fails when every quantile is capped: for the series \<open>[5.0]\<close> and the design flow
  \<open>0.95\<close> (the double nearest to it) the hundred additions of \<open>0.95\<close> give
  \<open>95.00000000000017\<close>, the effective flow is \<open>0.9500000000000017\<close>, and the energy
  \<open>6.229368521280012\<close> is above the bound \<open>6.22936852128\<close>, whether the bound is taken
  exactly or computed in float64. Each step below is one rounded operation of the
  code.
\<close>

theorem calc_area_under_fdc_exceeds_full_capacity:
  "calc_area_under_fdc [5] (f64 0.95) 0.9 = Inr (5, (1753411359449385 / 281474976710656))
   \<and> calc_power (f64 0.95) * 8760 / 1000000 < (1753411359449385 / 281474976710656)
   \<and> f64 (f64 (calc_power (f64 0.95) * 8760) / 1000000) < (1753411359449385 / 281474976710656)"
proof -
  have q: "f64 0.95 = (4278419646001971 / 4503599627370496)"
    by (subst f64_eval [where k = 53]) (simp_all add: np_rint_def)
  have n9: "f64 0.9 = (8106479329266893 / 9007199254740992)"
    by (subst f64_eval [where k = 53]) (simp_all add: np_rint_def)
  have fq: "f64 (4278419646001971 / 4503599627370496) = (4278419646001971 / 4503599627370496)"
    by (subst f64_eval [where k = 53]) (simp_all add: np_rint_def)
  have c1: "f64 100.4 = (3532510957718733 / 35184372088832)"
    by (subst f64_eval [where k = 46]) (simp_all add: np_rint_def)
  have c2: "f64 0.76 = (3422735716801577 / 4503599627370496)"
    by (subst f64_eval [where k = 53]) (simp_all add: np_rint_def)
  have c3: "f64 9.81 = (5522539043063071 / 562949953421312)"
    by (subst f64_eval [where k = 49]) (simp_all add: np_rint_def)
  have t0: "py_sum (replicate 0 (4278419646001971 / 4503599627370496)) = 0"
    by (simp add: py_sum_def)
  have t1: "py_sum (replicate 1 (4278419646001971 / 4503599627370496)) = (4278419646001971 / 4503599627370496)"
    by (rule py_sum_step [OF _ t0])
       (simp, subst f64_eval [where k = 53], simp_all add: np_rint_def)
  have t2: "py_sum (replicate 2 (4278419646001971 / 4503599627370496)) = (4278419646001971 / 2251799813685248)"
    by (rule py_sum_step [OF _ t1])
       (simp, subst f64_eval [where k = 52], simp_all add: np_rint_def)
  have t3: "py_sum (replicate 3 (4278419646001971 / 4503599627370496)) = (1604407367250739 / 562949953421312)"
    by (rule py_sum_step [OF _ t2])
       (simp, subst f64_eval [where k = 51], simp_all add: np_rint_def)
  have t4: "py_sum (replicate 4 (4278419646001971 / 4503599627370496)) = (4278419646001971 / 1125899906842624)"
    by (rule py_sum_step [OF _ t3])
       (simp, subst f64_eval [where k = 51], simp_all add: np_rint_def)
  have t5: "py_sum (replicate 5 (4278419646001971 / 4503599627370496)) = (19 / 4)"
    by (rule py_sum_step [OF _ t4])
       (simp, subst f64_eval [where k = 50], simp_all add: np_rint_def)
  have t6: "py_sum (replicate 6 (4278419646001971 / 4503599627370496)) = (6417629469002957 / 1125899906842624)"
    by (rule py_sum_step [OF _ t5])
       (simp, subst f64_eval [where k = 50], simp_all add: np_rint_def)
  have t7: "py_sum (replicate 7 (4278419646001971 / 4503599627370496)) = (3743617190251725 / 562949953421312)"
    by (rule py_sum_step [OF _ t6])
       (simp, subst f64_eval [where k = 50], simp_all add: np_rint_def)
  have t8: "py_sum (replicate 8 (4278419646001971 / 4503599627370496)) = (8556839292003943 / 1125899906842624)"
    by (rule py_sum_step [OF _ t7])
       (simp, subst f64_eval [where k = 50], simp_all add: np_rint_def)
  have t9: "py_sum (replicate 9 (4278419646001971 / 4503599627370496)) = (2406611050876109 / 281474976710656)"
    by (rule py_sum_step [OF _ t8])
       (simp, subst f64_eval [where k = 49], simp_all add: np_rint_def)
  have t10: "py_sum (replicate 10 (4278419646001971 / 4503599627370496)) = (19 / 2)"
    by (rule py_sum_step [OF _ t9])
       (simp, subst f64_eval [where k = 49], simp_all add: np_rint_def)
  have t11: "py_sum (replicate 11 (4278419646001971 / 4503599627370496)) = (2941413506626355 / 281474976710656)"
    by (rule py_sum_step [OF _ t10])
       (simp, subst f64_eval [where k = 49], simp_all add: np_rint_def)
  have t12: "py_sum (replicate 12 (4278419646001971 / 4503599627370496)) = (1604407367250739 / 140737488355328)"
    by (rule py_sum_step [OF _ t11])
       (simp, subst f64_eval [where k = 49], simp_all add: np_rint_def)
  have t13: "py_sum (replicate 13 (4278419646001971 / 4503599627370496)) = (3476215962376601 / 281474976710656)"
    by (rule py_sum_step [OF _ t12])
       (simp, subst f64_eval [where k = 49], simp_all add: np_rint_def)
  have t14: "py_sum (replicate 14 (4278419646001971 / 4503599627370496)) = (935904297562931 / 70368744177664)"
    by (rule py_sum_step [OF _ t13])
       (simp, subst f64_eval [where k = 49], simp_all add: np_rint_def)
  have t15: "py_sum (replicate 15 (4278419646001971 / 4503599627370496)) = (4011018418126847 / 281474976710656)"
    by (rule py_sum_step [OF _ t14])
       (simp, subst f64_eval [where k = 49], simp_all add: np_rint_def)
  have t16: "py_sum (replicate 16 (4278419646001971 / 4503599627370496)) = (2139209823000985 / 140737488355328)"
    by (rule py_sum_step [OF _ t15])
       (simp, subst f64_eval [where k = 49], simp_all add: np_rint_def)
  have t17: "py_sum (replicate 17 (4278419646001971 / 4503599627370496)) = (4545820873877093 / 281474976710656)"
    by (rule py_sum_step [OF _ t16])
       (simp, subst f64_eval [where k = 48], simp_all add: np_rint_def)
  have t18: "py_sum (replicate 18 (4278419646001971 / 4503599627370496)) = (601652762719027 / 35184372088832)"
    by (rule py_sum_step [OF _ t17])
       (simp, subst f64_eval [where k = 48], simp_all add: np_rint_def)
  have t19: "py_sum (replicate 19 (4278419646001971 / 4503599627370496)) = (5080623329627339 / 281474976710656)"
    by (rule py_sum_step [OF _ t18])
       (simp, subst f64_eval [where k = 48], simp_all add: np_rint_def)
  have t20: "py_sum (replicate 20 (4278419646001971 / 4503599627370496)) = (2674012278751231 / 140737488355328)"
    by (rule py_sum_step [OF _ t19])
       (simp, subst f64_eval [where k = 48], simp_all add: np_rint_def)
  have t21: "py_sum (replicate 21 (4278419646001971 / 4503599627370496)) = (5615425785377585 / 281474976710656)"
    by (rule py_sum_step [OF _ t20])
       (simp, subst f64_eval [where k = 48], simp_all add: np_rint_def)
  have t22: "py_sum (replicate 22 (4278419646001971 / 4503599627370496)) = (1470706753313177 / 70368744177664)"
    by (rule py_sum_step [OF _ t21])
       (simp, subst f64_eval [where k = 48], simp_all add: np_rint_def)
  have t23: "py_sum (replicate 23 (4278419646001971 / 4503599627370496)) = (6150228241127831 / 281474976710656)"
    by (rule py_sum_step [OF _ t22])
       (simp, subst f64_eval [where k = 48], simp_all add: np_rint_def)
  have t24: "py_sum (replicate 24 (4278419646001971 / 4503599627370496)) = (3208814734501477 / 140737488355328)"
    by (rule py_sum_step [OF _ t23])
       (simp, subst f64_eval [where k = 48], simp_all add: np_rint_def)
  have t25: "py_sum (replicate 25 (4278419646001971 / 4503599627370496)) = (6685030696878077 / 281474976710656)"
    by (rule py_sum_step [OF _ t24])
       (simp, subst f64_eval [where k = 48], simp_all add: np_rint_def)
  have t26: "py_sum (replicate 26 (4278419646001971 / 4503599627370496)) = (434526995297075 / 17592186044416)"
    by (rule py_sum_step [OF _ t25])
       (simp, subst f64_eval [where k = 48], simp_all add: np_rint_def)
  have t27: "py_sum (replicate 27 (4278419646001971 / 4503599627370496)) = (7219833152628323 / 281474976710656)"
    by (rule py_sum_step [OF _ t26])
       (simp, subst f64_eval [where k = 48], simp_all add: np_rint_def)
  have t28: "py_sum (replicate 28 (4278419646001971 / 4503599627370496)) = (3743617190251723 / 140737488355328)"
    by (rule py_sum_step [OF _ t27])
       (simp, subst f64_eval [where k = 48], simp_all add: np_rint_def)
  have t29: "py_sum (replicate 29 (4278419646001971 / 4503599627370496)) = (7754635608378569 / 281474976710656)"
    by (rule py_sum_step [OF _ t28])
       (simp, subst f64_eval [where k = 48], simp_all add: np_rint_def)
  have t30: "py_sum (replicate 30 (4278419646001971 / 4503599627370496)) = (2005509209063423 / 70368744177664)"
    by (rule py_sum_step [OF _ t29])
       (simp, subst f64_eval [where k = 48], simp_all add: np_rint_def)
  have t31: "py_sum (replicate 31 (4278419646001971 / 4503599627370496)) = (8289438064128815 / 281474976710656)"
    by (rule py_sum_step [OF _ t30])
       (simp, subst f64_eval [where k = 48], simp_all add: np_rint_def)
  have t32: "py_sum (replicate 32 (4278419646001971 / 4503599627370496)) = (4278419646001969 / 140737488355328)"
    by (rule py_sum_step [OF _ t31])
       (simp, subst f64_eval [where k = 48], simp_all add: np_rint_def)
  have t33: "py_sum (replicate 33 (4278419646001971 / 4503599627370496)) = (8824240519879061 / 281474976710656)"
    by (rule py_sum_step [OF _ t32])
       (simp, subst f64_eval [where k = 48], simp_all add: np_rint_def)
  have t34: "py_sum (replicate 34 (4278419646001971 / 4503599627370496)) = (1136455218469273 / 35184372088832)"
    by (rule py_sum_step [OF _ t33])
       (simp, subst f64_eval [where k = 47], simp_all add: np_rint_def)
  have t35: "py_sum (replicate 35 (4278419646001971 / 4503599627370496)) = (2339760743907327 / 70368744177664)"
    by (rule py_sum_step [OF _ t34])
       (simp, subst f64_eval [where k = 47], simp_all add: np_rint_def)
  have t36: "py_sum (replicate 36 (4278419646001971 / 4503599627370496)) = (601652762719027 / 17592186044416)"
    by (rule py_sum_step [OF _ t35])
       (simp, subst f64_eval [where k = 47], simp_all add: np_rint_def)
  have t37: "py_sum (replicate 37 (4278419646001971 / 4503599627370496)) = (2473461357844889 / 70368744177664)"
    by (rule py_sum_step [OF _ t36])
       (simp, subst f64_eval [where k = 47], simp_all add: np_rint_def)
  have t38: "py_sum (replicate 38 (4278419646001971 / 4503599627370496)) = (1270155832406835 / 35184372088832)"
    by (rule py_sum_step [OF _ t37])
       (simp, subst f64_eval [where k = 47], simp_all add: np_rint_def)
  have t39: "py_sum (replicate 39 (4278419646001971 / 4503599627370496)) = (2607161971782451 / 70368744177664)"
    by (rule py_sum_step [OF _ t38])
       (simp, subst f64_eval [where k = 47], simp_all add: np_rint_def)
  have t40: "py_sum (replicate 40 (4278419646001971 / 4503599627370496)) = 38"
    by (rule py_sum_step [OF _ t39])
       (simp, subst f64_eval [where k = 47], simp_all add: np_rint_def)
  have t41: "py_sum (replicate 41 (4278419646001971 / 4503599627370496)) = (2740862585720013 / 70368744177664)"
    by (rule py_sum_step [OF _ t40])
       (simp, subst f64_eval [where k = 47], simp_all add: np_rint_def)
  have t42: "py_sum (replicate 42 (4278419646001971 / 4503599627370496)) = (1403856446344397 / 35184372088832)"
    by (rule py_sum_step [OF _ t41])
       (simp, subst f64_eval [where k = 47], simp_all add: np_rint_def)
  have t43: "py_sum (replicate 43 (4278419646001971 / 4503599627370496)) = (2874563199657575 / 70368744177664)"
    by (rule py_sum_step [OF _ t42])
       (simp, subst f64_eval [where k = 47], simp_all add: np_rint_def)
  have t44: "py_sum (replicate 44 (4278419646001971 / 4503599627370496)) = (735353376656589 / 17592186044416)"
    by (rule py_sum_step [OF _ t43])
       (simp, subst f64_eval [where k = 47], simp_all add: np_rint_def)
  have t45: "py_sum (replicate 45 (4278419646001971 / 4503599627370496)) = (3008263813595137 / 70368744177664)"
    by (rule py_sum_step [OF _ t44])
       (simp, subst f64_eval [where k = 47], simp_all add: np_rint_def)
  have t46: "py_sum (replicate 46 (4278419646001971 / 4503599627370496)) = (1537557060281959 / 35184372088832)"
    by (rule py_sum_step [OF _ t45])
       (simp, subst f64_eval [where k = 47], simp_all add: np_rint_def)
  have t47: "py_sum (replicate 47 (4278419646001971 / 4503599627370496)) = (3141964427532699 / 70368744177664)"
    by (rule py_sum_step [OF _ t46])
       (simp, subst f64_eval [where k = 47], simp_all add: np_rint_def)
  have t48: "py_sum (replicate 48 (4278419646001971 / 4503599627370496)) = (401101841812685 / 8796093022208)"
    by (rule py_sum_step [OF _ t47])
       (simp, subst f64_eval [where k = 47], simp_all add: np_rint_def)
  have t49: "py_sum (replicate 49 (4278419646001971 / 4503599627370496)) = (3275665041470261 / 70368744177664)"
    by (rule py_sum_step [OF _ t48])
       (simp, subst f64_eval [where k = 47], simp_all add: np_rint_def)
  have t50: "py_sum (replicate 50 (4278419646001971 / 4503599627370496)) = (1671257674219521 / 35184372088832)"
    by (rule py_sum_step [OF _ t49])
       (simp, subst f64_eval [where k = 47], simp_all add: np_rint_def)
  have t51: "py_sum (replicate 51 (4278419646001971 / 4503599627370496)) = (3409365655407823 / 70368744177664)"
    by (rule py_sum_step [OF _ t50])
       (simp, subst f64_eval [where k = 47], simp_all add: np_rint_def)
  have t52: "py_sum (replicate 52 (4278419646001971 / 4503599627370496)) = (869053990594151 / 17592186044416)"
    by (rule py_sum_step [OF _ t51])
       (simp, subst f64_eval [where k = 47], simp_all add: np_rint_def)
  have t53: "py_sum (replicate 53 (4278419646001971 / 4503599627370496)) = (3543066269345385 / 70368744177664)"
    by (rule py_sum_step [OF _ t52])
       (simp, subst f64_eval [where k = 47], simp_all add: np_rint_def)
  have t54: "py_sum (replicate 54 (4278419646001971 / 4503599627370496)) = (1804958288157083 / 35184372088832)"
    by (rule py_sum_step [OF _ t53])
       (simp, subst f64_eval [where k = 47], simp_all add: np_rint_def)
  have t55: "py_sum (replicate 55 (4278419646001971 / 4503599627370496)) = (3676766883282947 / 70368744177664)"
    by (rule py_sum_step [OF _ t54])
       (simp, subst f64_eval [where k = 47], simp_all add: np_rint_def)
  have t56: "py_sum (replicate 56 (4278419646001971 / 4503599627370496)) = (233976074390733 / 4398046511104)"
    by (rule py_sum_step [OF _ t55])
       (simp, subst f64_eval [where k = 47], simp_all add: np_rint_def)
  have t57: "py_sum (replicate 57 (4278419646001971 / 4503599627370496)) = (3810467497220509 / 70368744177664)"
    by (rule py_sum_step [OF _ t56])
       (simp, subst f64_eval [where k = 47], simp_all add: np_rint_def)
  have t58: "py_sum (replicate 58 (4278419646001971 / 4503599627370496)) = (1938658902094645 / 35184372088832)"
    by (rule py_sum_step [OF _ t57])
       (simp, subst f64_eval [where k = 47], simp_all add: np_rint_def)
  have t59: "py_sum (replicate 59 (4278419646001971 / 4503599627370496)) = (3944168111158071 / 70368744177664)"
    by (rule py_sum_step [OF _ t58])
       (simp, subst f64_eval [where k = 47], simp_all add: np_rint_def)
  have t60: "py_sum (replicate 60 (4278419646001971 / 4503599627370496)) = (1002754604531713 / 17592186044416)"
    by (rule py_sum_step [OF _ t59])
       (simp, subst f64_eval [where k = 47], simp_all add: np_rint_def)
  have t61: "py_sum (replicate 61 (4278419646001971 / 4503599627370496)) = (4077868725095633 / 70368744177664)"
    by (rule py_sum_step [OF _ t60])
       (simp, subst f64_eval [where k = 47], simp_all add: np_rint_def)
  have t62: "py_sum (replicate 62 (4278419646001971 / 4503599627370496)) = (2072359516032207 / 35184372088832)"
    by (rule py_sum_step [OF _ t61])
       (simp, subst f64_eval [where k = 47], simp_all add: np_rint_def)
  have t63: "py_sum (replicate 63 (4278419646001971 / 4503599627370496)) = (4211569339033195 / 70368744177664)"
    by (rule py_sum_step [OF _ t62])
       (simp, subst f64_eval [where k = 47], simp_all add: np_rint_def)
  have t64: "py_sum (replicate 64 (4278419646001971 / 4503599627370496)) = (534802455750247 / 8796093022208)"
    by (rule py_sum_step [OF _ t63])
       (simp, subst f64_eval [where k = 47], simp_all add: np_rint_def)
  have t65: "py_sum (replicate 65 (4278419646001971 / 4503599627370496)) = (4345269952970757 / 70368744177664)"
    by (rule py_sum_step [OF _ t64])
       (simp, subst f64_eval [where k = 47], simp_all add: np_rint_def)
  have t66: "py_sum (replicate 66 (4278419646001971 / 4503599627370496)) = (2206060129969769 / 35184372088832)"
    by (rule py_sum_step [OF _ t65])
       (simp, subst f64_eval [where k = 47], simp_all add: np_rint_def)
  have t67: "py_sum (replicate 67 (4278419646001971 / 4503599627370496)) = (4478970566908319 / 70368744177664)"
    by (rule py_sum_step [OF _ t66])
       (simp, subst f64_eval [where k = 47], simp_all add: np_rint_def)
  have t68: "py_sum (replicate 68 (4278419646001971 / 4503599627370496)) = (1136455218469275 / 17592186044416)"
    by (rule py_sum_step [OF _ t67])
       (simp, subst f64_eval [where k = 46], simp_all add: np_rint_def)
  have t69: "py_sum (replicate 69 (4278419646001971 / 4503599627370496)) = (4612671180845881 / 70368744177664)"
    by (rule py_sum_step [OF _ t68])
       (simp, subst f64_eval [where k = 46], simp_all add: np_rint_def)
  have t70: "py_sum (replicate 70 (4278419646001971 / 4503599627370496)) = (2339760743907331 / 35184372088832)"
    by (rule py_sum_step [OF _ t69])
       (simp, subst f64_eval [where k = 46], simp_all add: np_rint_def)
  have t71: "py_sum (replicate 71 (4278419646001971 / 4503599627370496)) = (4746371794783443 / 70368744177664)"
    by (rule py_sum_step [OF _ t70])
       (simp, subst f64_eval [where k = 46], simp_all add: np_rint_def)
  have t72: "py_sum (replicate 72 (4278419646001971 / 4503599627370496)) = (150413190679757 / 2199023255552)"
    by (rule py_sum_step [OF _ t71])
       (simp, subst f64_eval [where k = 46], simp_all add: np_rint_def)
  have t73: "py_sum (replicate 73 (4278419646001971 / 4503599627370496)) = (4880072408721005 / 70368744177664)"
    by (rule py_sum_step [OF _ t72])
       (simp, subst f64_eval [where k = 46], simp_all add: np_rint_def)
  have t74: "py_sum (replicate 74 (4278419646001971 / 4503599627370496)) = (2473461357844893 / 35184372088832)"
    by (rule py_sum_step [OF _ t73])
       (simp, subst f64_eval [where k = 46], simp_all add: np_rint_def)
  have t75: "py_sum (replicate 75 (4278419646001971 / 4503599627370496)) = (5013773022658567 / 70368744177664)"
    by (rule py_sum_step [OF _ t74])
       (simp, subst f64_eval [where k = 46], simp_all add: np_rint_def)
  have t76: "py_sum (replicate 76 (4278419646001971 / 4503599627370496)) = (1270155832406837 / 17592186044416)"
    by (rule py_sum_step [OF _ t75])
       (simp, subst f64_eval [where k = 46], simp_all add: np_rint_def)
  have t77: "py_sum (replicate 77 (4278419646001971 / 4503599627370496)) = (5147473636596129 / 70368744177664)"
    by (rule py_sum_step [OF _ t76])
       (simp, subst f64_eval [where k = 46], simp_all add: np_rint_def)
  have t78: "py_sum (replicate 78 (4278419646001971 / 4503599627370496)) = (2607161971782455 / 35184372088832)"
    by (rule py_sum_step [OF _ t77])
       (simp, subst f64_eval [where k = 46], simp_all add: np_rint_def)
  have t79: "py_sum (replicate 79 (4278419646001971 / 4503599627370496)) = (5281174250533691 / 70368744177664)"
    by (rule py_sum_step [OF _ t78])
       (simp, subst f64_eval [where k = 46], simp_all add: np_rint_def)
  have t80: "py_sum (replicate 80 (4278419646001971 / 4503599627370496)) = (668503069687809 / 8796093022208)"
    by (rule py_sum_step [OF _ t79])
       (simp, subst f64_eval [where k = 46], simp_all add: np_rint_def)
  have t81: "py_sum (replicate 81 (4278419646001971 / 4503599627370496)) = (5414874864471253 / 70368744177664)"
    by (rule py_sum_step [OF _ t80])
       (simp, subst f64_eval [where k = 46], simp_all add: np_rint_def)
  have t82: "py_sum (replicate 82 (4278419646001971 / 4503599627370496)) = (2740862585720017 / 35184372088832)"
    by (rule py_sum_step [OF _ t81])
       (simp, subst f64_eval [where k = 46], simp_all add: np_rint_def)
  have t83: "py_sum (replicate 83 (4278419646001971 / 4503599627370496)) = (5548575478408815 / 70368744177664)"
    by (rule py_sum_step [OF _ t82])
       (simp, subst f64_eval [where k = 46], simp_all add: np_rint_def)
  have t84: "py_sum (replicate 84 (4278419646001971 / 4503599627370496)) = (1403856446344399 / 17592186044416)"
    by (rule py_sum_step [OF _ t83])
       (simp, subst f64_eval [where k = 46], simp_all add: np_rint_def)
  have t85: "py_sum (replicate 85 (4278419646001971 / 4503599627370496)) = (5682276092346377 / 70368744177664)"
    by (rule py_sum_step [OF _ t84])
       (simp, subst f64_eval [where k = 46], simp_all add: np_rint_def)
  have t86: "py_sum (replicate 86 (4278419646001971 / 4503599627370496)) = (2874563199657579 / 35184372088832)"
    by (rule py_sum_step [OF _ t85])
       (simp, subst f64_eval [where k = 46], simp_all add: np_rint_def)
  have t87: "py_sum (replicate 87 (4278419646001971 / 4503599627370496)) = (5815976706283939 / 70368744177664)"
    by (rule py_sum_step [OF _ t86])
       (simp, subst f64_eval [where k = 46], simp_all add: np_rint_def)
  have t88: "py_sum (replicate 88 (4278419646001971 / 4503599627370496)) = (367676688328295 / 4398046511104)"
    by (rule py_sum_step [OF _ t87])
       (simp, subst f64_eval [where k = 46], simp_all add: np_rint_def)
  have t89: "py_sum (replicate 89 (4278419646001971 / 4503599627370496)) = (5949677320221501 / 70368744177664)"
    by (rule py_sum_step [OF _ t88])
       (simp, subst f64_eval [where k = 46], simp_all add: np_rint_def)
  have t90: "py_sum (replicate 90 (4278419646001971 / 4503599627370496)) = (3008263813595141 / 35184372088832)"
    by (rule py_sum_step [OF _ t89])
       (simp, subst f64_eval [where k = 46], simp_all add: np_rint_def)
  have t91: "py_sum (replicate 91 (4278419646001971 / 4503599627370496)) = (6083377934159063 / 70368744177664)"
    by (rule py_sum_step [OF _ t90])
       (simp, subst f64_eval [where k = 46], simp_all add: np_rint_def)
  have t92: "py_sum (replicate 92 (4278419646001971 / 4503599627370496)) = (1537557060281961 / 17592186044416)"
    by (rule py_sum_step [OF _ t91])
       (simp, subst f64_eval [where k = 46], simp_all add: np_rint_def)
  have t93: "py_sum (replicate 93 (4278419646001971 / 4503599627370496)) = (6217078548096625 / 70368744177664)"
    by (rule py_sum_step [OF _ t92])
       (simp, subst f64_eval [where k = 46], simp_all add: np_rint_def)
  have t94: "py_sum (replicate 94 (4278419646001971 / 4503599627370496)) = (3141964427532703 / 35184372088832)"
    by (rule py_sum_step [OF _ t93])
       (simp, subst f64_eval [where k = 46], simp_all add: np_rint_def)
  have t95: "py_sum (replicate 95 (4278419646001971 / 4503599627370496)) = (6350779162034187 / 70368744177664)"
    by (rule py_sum_step [OF _ t94])
       (simp, subst f64_eval [where k = 46], simp_all add: np_rint_def)
  have t96: "py_sum (replicate 96 (4278419646001971 / 4503599627370496)) = (802203683625371 / 8796093022208)"
    by (rule py_sum_step [OF _ t95])
       (simp, subst f64_eval [where k = 46], simp_all add: np_rint_def)
  have t97: "py_sum (replicate 97 (4278419646001971 / 4503599627370496)) = (6484479775971749 / 70368744177664)"
    by (rule py_sum_step [OF _ t96])
       (simp, subst f64_eval [where k = 46], simp_all add: np_rint_def)
  have t98: "py_sum (replicate 98 (4278419646001971 / 4503599627370496)) = (3275665041470265 / 35184372088832)"
    by (rule py_sum_step [OF _ t97])
       (simp, subst f64_eval [where k = 46], simp_all add: np_rint_def)
  have t99: "py_sum (replicate 99 (4278419646001971 / 4503599627370496)) = (6618180389909311 / 70368744177664)"
    by (rule py_sum_step [OF _ t98])
       (simp, subst f64_eval [where k = 46], simp_all add: np_rint_def)
  have t100: "py_sum (replicate 100 (4278419646001971 / 4503599627370496)) = (1671257674219523 / 17592186044416)"
    by (rule py_sum_step [OF _ t99])
       (simp, subst f64_eval [where k = 46], simp_all add: np_rint_def)
  have eff: "f64 ((1671257674219523 / 17592186044416) / 100) = (4278419646001979 / 4503599627370496)"
    by (subst f64_eval [where k = 53]) (simp_all add: np_rint_def)
  have x1: "f64 ((4278419646001979 / 4503599627370496) * (3532510957718733 / 35184372088832)) = (6711770819665605 / 70368744177664)"
    by (subst f64_eval [where k = 46]) (simp_all add: np_rint_def)
  have x2: "f64 ((6711770819665605 / 70368744177664) * (3422735716801577 / 4503599627370496)) = (1275236455736465 / 17592186044416)"
    by (subst f64_eval [where k = 46]) (simp_all add: np_rint_def)
  have x3: "f64 ((1275236455736465 / 17592186044416) * (5522539043063071 / 562949953421312)) = (6255034815387361 / 8796093022208)"
    by (subst f64_eval [where k = 43]) (simp_all add: np_rint_def)
  have y1: "f64 ((6255034815387361 / 8796093022208) * 8760) = (6688733518407383 / 1073741824)"
    by (subst f64_eval [where k = 30]) (simp_all add: np_rint_def)
  have e: "f64 ((6688733518407383 / 1073741824) / 1000000) = (1753411359449385 / 281474976710656)"
    by (subst f64_eval [where k = 50]) (simp_all add: np_rint_def)
  have z1: "f64 ((4278419646001971 / 4503599627370496) * (3532510957718733 / 35184372088832)) = (838971352458199 / 8796093022208)"
    by (subst f64_eval [where k = 46]) (simp_all add: np_rint_def)
  have z2: "f64 ((838971352458199 / 8796093022208) * (3422735716801577 / 4503599627370496)) = (2550472911472925 / 35184372088832)"
    by (subst f64_eval [where k = 46]) (simp_all add: np_rint_def)
  have z3: "f64 ((2550472911472925 / 35184372088832) * (5522539043063071 / 562949953421312)) = (6255034815387349 / 8796093022208)"
    by (subst f64_eval [where k = 43]) (simp_all add: np_rint_def)
  have w1: "f64 ((6255034815387349 / 8796093022208) * 8760) = (3344366759203685 / 536870912)"
    by (subst f64_eval [where k = 30]) (simp_all add: np_rint_def)
  have w2: "f64 ((3344366759203685 / 536870912) / 1000000) = (3506822718898763 / 562949953421312)"
    by (subst f64_eval [where k = 50]) (simp_all add: np_rint_def)
  have qv: "py_map (np_percentile [5]) (np_linspace 0 100 100) = Inr (replicate 100 5)"
    by (rule q_vals_singleton)
  have filt: "fdc_flow_filtered (replicate 100 5) (f64 0.95) 0.9 = replicate 100 (4278419646001971 / 4503599627370496)"
    unfolding fdc_flow_filtered_replicate q n9 by (simp add: np_clip_def)
  have terms: "map f64 (replicate 100 (4278419646001971 / 4503599627370496)) = replicate 100 (4278419646001971 / 4503599627370496)"
    by (simp only: map_replicate fq)
  have est: "f64 (py_sum (replicate 100 5) / 100) = 5"
    using f64_of_int [of 5] by (simp add: py_sum_replicate_100)
  have pw: "calc_power (4278419646001979 / 4503599627370496) = (6255034815387361 / 8796093022208)"
    unfolding calc_power_def by (simp only: c1 c2 c3 x1 x2 x3)
  have pq: "calc_power (f64 0.95) = (6255034815387349 / 8796093022208)"
    unfolding calc_power_def by (simp only: q c1 c2 c3 z1 z2 z3)
  have res: "calc_area_under_fdc [5] (f64 0.95) 0.9 = Inr (5, (1753411359449385 / 281474976710656))"
    by (simp only: calc_area_under_fdc_Inr [OF qv] est filt terms t100 eff pw y1 e)
  have b1: "calc_power (f64 0.95) * 8760 / 1000000 < (1753411359449385 / 281474976710656)"
    unfolding pq by simp
  have b2: "f64 (f64 (calc_power (f64 0.95) * 8760) / 1000000) < (1753411359449385 / 281474976710656)"
    unfolding pq w1 w2 by simp
  from res b1 b2 show ?thesis by blast
qed

section \<open>Properties of the economics loop\<close>

lemma np_rint_zero: "np_rint 0 = 0"
  by (simp add: np_rint_def)

lemma np_round_zero: "np_round (Fin 0) n = Fin 0"
  by (simp add: np_rint_zero)

lemma n_years_pos: "lt \<noteq> [] \<Longrightarrow> 0 < length (remdups (map fst lt))"
  by (cases lt) auto

text \<open>
  A scenario whose energy column sums to zero: the annual energy and the annual revenue
  are \<open>0.0\<close>, the quotient \<open>cost / ann_rev\<close> of a positive cost is \<open>inf\<close>, and
  \<open>round(1 / inf, 2)\<close> is \<open>0.0\<close>.
\<close>

lemma economics_scenario_zero_energy:
  assumes "lt \<noteq> []" and "cols (series_label qd) = Some energy"
    and "sum_list energy = 0" and "0 < qd"
  shows "\<exists>r. economics_scenario lt cols qd = Inr r
             \<and> sc_ann_rev r = Fin 0 \<and> sc_payback r = PInf \<and> sc_roi r = Fin 0"
proof -
  from assms(1) have "map snd lt \<noteq> []" by simp
  from calc_area_under_fdc_total [OF this] obtain est e
    where fdc: "calc_area_under_fdc (map snd lt) qd ifr_min = Inr (est, e)" by blast
  have ny: "real (length (remdups (map fst lt))) \<noteq> 0"
    using n_years_pos [OF assms(1)] by simp
  have energy: "np_div (np_div (Fin (sum_list energy)) (Fin (real (length (remdups (map fst lt))))))
                  (Fin 1000000) = Fin 0"
    using ny assms(3) by simp
  have rev: "np_mul (Fin 0) (Fin 0.04) = Fin 0" by simp
  have pay: "np_round (np_div (Fin (unit_cap_cost * qd)) (Fin 0)) 1 = PInf"
    using assms(4) by (simp add: unit_cap_cost_def)
  have roi: "np_round (np_div (Fin 1) PInf) 2 = Fin 0"
    by (simp add: np_rint_zero)
  show ?thesis
    unfolding economics_scenario_def Let_def fdc
    by (simp only: assms(2) energy rev pay roi option.case sum.case prod.case scenario.simps)
       (simp add: exI)
qed

text \<open>
  C5, amended: when the annual revenue of a scenario is \<open>0\<close> and its design flow is
  positive, the pass of the loop does not fault; the payback it reports is \<open>inf\<close> and
  the return on investment is \<open>0.0\<close>. Nothing marks the payback as undefined.
\<close>

theorem economics_scenario_zero_revenue:
  assumes "lt \<noteq> []" and "cols (series_label qd) = Some energy"
    and "sum_list energy = 0" and "0 < qd"
  shows "\<exists>r. economics_scenario lt cols qd = Inr r
             \<and> sc_ann_rev r = Fin 0 \<and> sc_payback r = PInf \<and> sc_roi r = Fin 0"
  using assms by (rule economics_scenario_zero_energy)

lemma series_label_values:
  "series_label (1 / 2) = 1 / 2" "series_label (3 / 5) = 3 / 5"
  "series_label (3 / 4) = 4 / 5" "series_label 4 = 4"
  by (simp_all add: series_label_def np_rint_def)

lemma energy_columns_example_4:
  "energy_columns [4] [1 / 2] (series_label 4) = Some [0]"
  by (simp add: energy_columns_def series_label_values calc_daily_flow_def
        calc_energy_daily_def calc_power_def)

theorem economics_scenario_zero_revenue_witness:
  "[(2000::int, 1 / 2 :: real)] \<noteq> []
   \<and> energy_columns [4] [1 / 2] (series_label 4) = Some [0]
   \<and> sum_list [0::real] = 0 \<and> (0::real) < 4
   \<and> (\<exists>r. economics_scenario [(2000, 1 / 2)] (energy_columns [4] [1 / 2]) 4 = Inr r
            \<and> sc_ann_rev r = Fin 0 \<and> sc_payback r = PInf \<and> sc_roi r = Fin 0)"
  using economics_scenario_zero_revenue
          [of "[(2000, 1 / 2)]" "energy_columns [4] [1 / 2]" 4 "[0]"]
        energy_columns_example_4
  by simp

lemma design_flows_example: "design_flows [1 / 2] = Inr [1 / 2, 1 / 2, 3 / 5, 3 / 4]"
  by (simp add: design_flows_def mean_def np_percentile_singleton Let_def)

lemma energy_columns_example:
  "energy_columns [1 / 2, 1 / 2, 3 / 5, 3 / 4] [1 / 2] (series_label (1 / 2)) = Some [0]"
  "energy_columns [1 / 2, 1 / 2, 3 / 5, 3 / 4] [1 / 2] (series_label (3 / 5)) = Some [0]"
  "energy_columns [1 / 2, 1 / 2, 3 / 5, 3 / 4] [1 / 2] (series_label (3 / 4)) = Some [0]"
  by (simp_all add: energy_columns_def series_label_values calc_daily_flow_def
        calc_energy_daily_def calc_power_def)

text \<open>
  C5 as stated (a payback with zero annual revenue is flagged as undefined rather than
  silently infinite) fails on the long-term series with the single row
  (2000, \<open>0.5\<close>): the design flows are \<open>[0.5, 0.5, 0.6, 0.75]\<close>, no inflow reaches the
  instream-flow requirement \<open>0.9\<close>, every scenario has an annual revenue of \<open>0\<close>, and
  every payback in the report is \<open>inf\<close>.
\<close>

theorem payback_silently_infinite:
  "map_sum id (map (\<lambda>r. (sc_ann_rev r, sc_payback r, sc_roi r)))
     (sample_energy_calcs [(2000, 1 / 2)])
   = Inr [(Fin 0, PInf, Fin 0), (Fin 0, PInf, Fin 0), (Fin 0, PInf, Fin 0), (Fin 0, PInf, Fin 0)]"
proof -
  let ?lt = "[(2000::int, 1 / 2 :: real)]"
  let ?cols = "energy_columns [1 / 2, 1 / 2, 3 / 5, 3 / 4] [1 / 2]"
  have ne: "?lt \<noteq> []" by simp
  have z: "sum_list [0::real] = 0" by simp
  obtain r1 where r1: "economics_scenario ?lt ?cols (1 / 2) = Inr r1"
    "sc_ann_rev r1 = Fin 0" "sc_payback r1 = PInf" "sc_roi r1 = Fin 0"
    using economics_scenario_zero_energy [of ?lt ?cols "1 / 2" "[0]"] energy_columns_example(1)
    by auto
  obtain r2 where r2: "economics_scenario ?lt ?cols (3 / 5) = Inr r2"
    "sc_ann_rev r2 = Fin 0" "sc_payback r2 = PInf" "sc_roi r2 = Fin 0"
    using economics_scenario_zero_energy [of ?lt ?cols "3 / 5" "[0]"] energy_columns_example(2)
    by auto
  obtain r3 where r3: "economics_scenario ?lt ?cols (3 / 4) = Inr r3"
    "sc_ann_rev r3 = Fin 0" "sc_payback r3 = PInf" "sc_roi r3 = Fin 0"
    using economics_scenario_zero_energy [of ?lt ?cols "3 / 4" "[0]"] energy_columns_example(3)
    by auto
  have dy: "drop_incomplete_years ?lt = ?lt"
    by (simp add: drop_incomplete_years_def)
  have "sample_energy_calcs ?lt = Inr [r1, r1, r2, r3]"
    unfolding sample_energy_calcs_def dy Let_def
    by (simp add: design_flows_example r1(1) r2(1) r3(1))
  then show ?thesis
    by (simp add: r1 r2 r3)
qed

end
